theory Spec2Isabelle
  imports Complex_Main "HOL-Library.Monad_Syntax"
begin

section \<open>Arrays, shape errors and the array operations used by \<open>lqg/model.py\<close>\<close>

text \<open>
  The program computes on dense \<open>jax.numpy\<close> arrays. A one-dimensional array is a list,
  a two-dimensional array a list of rows, a three-dimensional array a list of matrices
  (leading axis first). The entries range over a commutative ring \<open>'a\<close>; the theorems hold
  for the rationals and the reals alike, and say nothing about rounding.
  An array with an axis of length zero keeps its other axis lengths in Python; a list does
  not, so the theorems below ask for non-empty axes wherever that matters.

  Every exception the program can raise comes from an array operation applied to operands of
  incompatible shapes; the repository defines no exception class of its own and contains no
  \<open>raise\<close> statement. A computation that raises has the value \<open>None\<close>.
\<close>

type_synonym 'a array1 = "'a list"
type_synonym 'a array2 = "'a list list"
type_synonym 'a array3 = "'a list list list"

fun map_raising :: "('a \<Rightarrow> 'b option) \<Rightarrow> 'a list \<Rightarrow> 'b list option" where
  "map_raising g [] = Some []"
| "map_raising g (x # xs) = do { y \<leftarrow> g x; ys \<leftarrow> map_raising g xs; Some (y # ys) }"

definition nrows :: "'a array2 \<Rightarrow> nat" where
  "nrows M = length M"

definition ncols :: "'a array2 \<Rightarrow> nat" where
  "ncols M = (case M of [] \<Rightarrow> 0 | r # _ \<Rightarrow> length r)"

definition is_mat :: "nat \<Rightarrow> nat \<Rightarrow> 'a array2 \<Rightarrow> bool" where
  "is_mat r c M = (length M = r \<and> list_all (\<lambda>row. length row = c) M)"

definition is_arr3 :: "nat \<Rightarrow> nat \<Rightarrow> nat \<Rightarrow> 'a array3 \<Rightarrow> bool" where
  "is_arr3 t r c x = (length x = t \<and> list_all (is_mat r c) x)"

definition zeros_vec :: "nat \<Rightarrow> ('a::zero) array1" where
  "zeros_vec k = replicate k 0"

definition zeros :: "nat \<Rightarrow> nat \<Rightarrow> ('a::zero) array2" where
  "zeros r c = replicate r (replicate c 0)"

definition zeros_like :: "'a array2 \<Rightarrow> ('a::zero) array2" where
  "zeros_like M = map (map (\<lambda>_. 0)) M"

definition dot :: "('a::comm_ring_1) array1 \<Rightarrow> 'a array1 \<Rightarrow> 'a" where
  "dot u v = (\<Sum>k\<leftarrow>[0..<length u]. u ! k * v ! k)"

text \<open>\<open>M.T\<close> of a two-dimensional array; also the exchange of the two leading axes of a
  three-dimensional one (\<open>transpose((1, 0, 2))\<close>, \<open>vmap(..., out_axes=1)\<close>).\<close>

definition mtransp :: "'b list list \<Rightarrow> 'b list list" where
  "mtransp M = map (\<lambda>j. map (\<lambda>r. r ! j) M) [0..<ncols M]"

text \<open>\<open>M @ x\<close> and \<open>M @ N\<close>: the contracted axes must have the same length.\<close>

definition matvec :: "('a::comm_ring_1) array2 \<Rightarrow> 'a array1 \<Rightarrow> 'a array1 option" where
  "matvec M x = (if ncols M = length x then Some (map (\<lambda>r. dot r x) M) else None)"

definition mmul :: "('a::comm_ring_1) array2 \<Rightarrow> 'a array2 \<Rightarrow> 'a array2" where
  "mmul M N = map (\<lambda>r. map (\<lambda>c. dot r c) (mtransp N)) M"

definition matmul :: "('a::comm_ring_1) array2 \<Rightarrow> 'a array2 \<Rightarrow> 'a array2 option" where
  "matmul M N = (if ncols M = nrows N then Some (mmul M N) else None)"

definition mneg :: "('a::comm_ring_1) array2 \<Rightarrow> 'a array2" where
  "mneg M = map (map uminus) M"

text \<open>Elementwise \<open>+\<close> and \<open>-\<close> broadcast: two axis lengths are compatible when they are
  equal or one of them is 1, and the axis of length 1 is repeated.\<close>

definition blen :: "nat \<Rightarrow> nat \<Rightarrow> nat" where
  "blen a b = (if a = 1 then b else a)"

definition bcompat :: "nat \<Rightarrow> nat \<Rightarrow> bool" where
  "bcompat a b = (a = b \<or> a = 1 \<or> b = 1)"

definition bidx :: "nat \<Rightarrow> nat \<Rightarrow> nat" where
  "bidx a i = (if a = 1 then 0 else i)"

definition bcast1 :: "('a \<Rightarrow> 'a \<Rightarrow> 'a) \<Rightarrow> 'a array1 \<Rightarrow> 'a array1 \<Rightarrow> 'a array1 option" where
  "bcast1 g u v =
     (if bcompat (length u) (length v)
      then Some (map (\<lambda>i. g (u ! bidx (length u) i) (v ! bidx (length v) i))
                     [0..<blen (length u) (length v)])
      else None)"

definition bcast2 :: "('a \<Rightarrow> 'a \<Rightarrow> 'a) \<Rightarrow> 'a array2 \<Rightarrow> 'a array2 \<Rightarrow> 'a array2 option" where
  "bcast2 g M N =
     (if bcompat (nrows M) (nrows N) \<and> bcompat (ncols M) (ncols N)
      then Some (map (\<lambda>i. map (\<lambda>j. g (M ! bidx (nrows M) i ! bidx (ncols M) j)
                                        (N ! bidx (nrows N) i ! bidx (ncols N) j))
                                [0..<blen (ncols M) (ncols N)])
                     [0..<blen (nrows M) (nrows N)])
      else None)"

definition vadd :: "('a::comm_ring_1) array1 \<Rightarrow> 'a array1 \<Rightarrow> 'a array1 option" where
  "vadd = bcast1 (+)"

definition vsub :: "('a::comm_ring_1) array1 \<Rightarrow> 'a array1 \<Rightarrow> 'a array1 option" where
  "vsub = bcast1 (-)"

definition madd :: "('a::comm_ring_1) array2 \<Rightarrow> 'a array2 \<Rightarrow> 'a array2 option" where
  "madd = bcast2 (+)"

definition msub :: "('a::comm_ring_1) array2 \<Rightarrow> 'a array2 \<Rightarrow> 'a array2 option" where
  "msub = bcast2 (-)"

text \<open>\<open>jnp.hstack([M, N])\<close> and \<open>jnp.vstack([M, N])\<close> of two-dimensional arrays, and
  \<open>jnp.vstack([v, M])\<close> of a one-dimensional array (read as one row) and the rows collected by
  a scan.\<close>

definition hstack :: "'a array2 \<Rightarrow> 'a array2 \<Rightarrow> 'a array2 option" where
  "hstack M N = (if nrows M = nrows N then Some (map2 (@) M N) else None)"

definition vstack :: "'a array2 \<Rightarrow> 'a array2 \<Rightarrow> 'a array2 option" where
  "vstack M N = (if ncols M = ncols N then Some (M @ N) else None)"

definition vstack_row :: "'a array1 \<Rightarrow> 'a array2 \<Rightarrow> 'a array2 option" where
  "vstack_row v M = (if list_all (\<lambda>r. length r = length v) M then Some (v # M) else None)"

text \<open>Slices \<open>M[:, :d]\<close>, \<open>M[:d, :]\<close> and \<open>M[:d, :d]\<close>; a slice bound beyond the axis is
  clipped, as \<open>take\<close> does.\<close>

definition cols_upto :: "nat \<Rightarrow> 'a array2 \<Rightarrow> 'a array2" where
  "cols_upto d M = map (take d) M"

definition rows_upto :: "nat \<Rightarrow> 'a array2 \<Rightarrow> 'a array2" where
  "rows_upto d M = take d M"

definition block_upto :: "nat \<Rightarrow> 'a array2 \<Rightarrow> 'a array2" where
  "block_upto d M = map (take d) (take d M)"

text \<open>\<open>M[t]\<close> on the leading axis. JAX clips an index beyond the axis to the last position
  instead of raising.\<close>

definition jnp_index :: "'a list list \<Rightarrow> nat \<Rightarrow> 'a list" where
  "jnp_index M t = (if M = [] then [] else M ! min t (length M - 1))"

text \<open>\<open>x.shape\<close> of a three-dimensional array, as far as a list keeps it.\<close>

definition shape3 :: "'a array3 \<Rightarrow> nat \<times> nat \<times> nat" where
  "shape3 x = (length x, (case x of [] \<Rightarrow> 0 | m # _ \<Rightarrow> nrows m),
               (case x of [] \<Rightarrow> 0 | m # _ \<Rightarrow> ncols m))"

text \<open>
  \<open>jax.lax.scan(f, init, xs)\<close>. The body is first traced once on a carry and a slice of the
  shapes it will receive: an operation on incompatible shapes inside the body raises there,
  also when \<open>xs\<close> is empty, and the carry the body returns must have the shape of the carry
  it was given. Then the loop runs from left to right and stacks the outputs.
\<close>

fun scan_loop :: "('c \<Rightarrow> 'x \<Rightarrow> ('c \<times> 'y) option) \<Rightarrow> 'c \<Rightarrow> 'x list \<Rightarrow> ('c \<times> 'y list) option" where
  "scan_loop g c [] = Some (c, [])"
| "scan_loop g c (x # xs) =
     do { (c', y) \<leftarrow> g c x; (cf, ys) \<leftarrow> scan_loop g c' xs; Some (cf, y # ys) }"

definition scan :: "('c \<Rightarrow> 'c \<Rightarrow> bool) \<Rightarrow> ('c \<Rightarrow> 'x \<Rightarrow> ('c \<times> 'y) option) \<Rightarrow> 'c \<Rightarrow> 'x list \<Rightarrow> 'x
    \<Rightarrow> ('c \<times> 'y list) option" where
  "scan same_shape g init xs x_traced =
     do { (c', y) \<leftarrow> g init x_traced;
          if same_shape init c' then scan_loop g init xs else None }"

section \<open>The data model: \<open>Dynamics\<close>, \<open>Actor\<close>, \<open>System\<close>\<close>

text \<open>\<open>Actor\<close> repeats the five fields of \<open>Dynamics\<close> and adds the cost matrices.\<close>

record 'a Dynamics =
  A :: "'a array2"
  B :: "'a array2"
  C :: "'a array2"
  V :: "'a array2"
  W :: "'a array2"

record 'a Actor = "'a Dynamics" +
  Q :: "'a array2"
  R :: "'a array2"

record 'a System =
  actor :: "'a Actor"
  dynamics :: "'a Dynamics"

text \<open>
  What the program calls and the two source files do not define:
  \<open>lqg.lqr.control_law\<close> and \<open>lqg.kalman.kalman_gain\<close> (both may raise), and the library
  functions \<open>jnp.linalg.inv\<close>, \<open>jax.random.split\<close>, \<open>jax.random.normal\<close> and the log-density
  of \<open>numpyro\<close>'s \<open>MultivariateNormal\<close>. They are parameters. The library functions return
  arrays of a shape fixed by their arguments, so the parameter gives the entries and the
  model builds the array: \<open>linalg_inv M i j\<close> is entry \<open>(i, j)\<close> of the inverse,
  \<open>random_split key num i\<close> the \<open>i\<close>-th of \<open>num\<close> keys, \<open>random_normal key (T, d) i j\<close> entry
  \<open>(i, j)\<close> of the sample of shape \<open>(T, d)\<close>. JAX's \<open>inv\<close> makes no test for singularity: it
  returns an array for every square argument.
\<close>

record ('a, 'k) lib =
  control_law :: "'a array2 \<Rightarrow> 'a array2 \<Rightarrow> 'a array2 \<Rightarrow> 'a array2 \<Rightarrow> nat \<Rightarrow> 'a array2 option"
  kalman_gain :: "'a array2 \<Rightarrow> 'a array2 \<Rightarrow> 'a array2 \<Rightarrow> 'a array2 \<Rightarrow> nat \<Rightarrow> 'a array2 option"
  linalg_inv :: "'a array2 \<Rightarrow> nat \<Rightarrow> nat \<Rightarrow> 'a"
  random_split :: "'k \<Rightarrow> nat \<Rightarrow> nat \<Rightarrow> 'k"
  random_normal :: "'k \<Rightarrow> nat \<times> nat \<Rightarrow> nat \<Rightarrow> nat \<Rightarrow> 'a"
  mvn_log_prob :: "'a array1 \<Rightarrow> 'a array2 \<Rightarrow> 'a array1 \<Rightarrow> 'a"

definition jnp_linalg_inv :: "('a, 'k) lib \<Rightarrow> 'a array2 \<Rightarrow> 'a array2 option" where
  "jnp_linalg_inv lb M =
     (if nrows M = ncols M
      then Some (map (\<lambda>i. map (\<lambda>j. linalg_inv lb M i j) [0..<ncols M]) [0..<nrows M])
      else None)"

definition split_keys :: "('a, 'k) lib \<Rightarrow> 'k \<Rightarrow> nat \<Rightarrow> 'k list" where
  "split_keys lb key num = map (random_split lb key num) [0..<num]"

definition normal :: "('a, 'k) lib \<Rightarrow> 'k \<Rightarrow> nat \<times> nat \<Rightarrow> 'a array2" where
  "normal lb key shp =
     map (\<lambda>i. map (\<lambda>j. random_normal lb key shp i j) [0..<snd shp]) [0..<fst shp]"

text \<open>\<open>Actor.L\<close> and \<open>Actor.K\<close>.\<close>

definition L :: "('a::comm_ring_1, 'k) lib \<Rightarrow> 'a Actor \<Rightarrow> nat \<Rightarrow> 'a array2 option" where
  "L lb self T = control_law lb (A self) (B self) (Q self) (R self) T"

definition K :: "('a::comm_ring_1, 'k) lib \<Rightarrow> 'a Actor \<Rightarrow> nat \<Rightarrow> 'a array2 option" where
  "K lb self T =
     do { vvt \<leftarrow> matmul (V self) (mtransp (V self));
          wwt \<leftarrow> matmul (W self) (mtransp (W self));
          kalman_gain lb (A self) (C self) vvt wwt T }"

text \<open>\<open>System.__init__\<close> and \<open>LQG.__init__\<close> store their arguments. A constructor may raise in
  Python, so the result is an option; these two have no failing branch.\<close>

definition System_init :: "'a Actor \<Rightarrow> 'a Dynamics \<Rightarrow> 'a System option" where
  "System_init act dyn = Some \<lparr>actor = act, dynamics = dyn\<rparr>"

definition LQG_init :: "'a array2 \<Rightarrow> 'a array2 \<Rightarrow> 'a array2 \<Rightarrow> 'a array2 \<Rightarrow> 'a array2
    \<Rightarrow> 'a array2 \<Rightarrow> 'a array2 \<Rightarrow> 'a System option" where
  "LQG_init a b c v w q r =
     (let dyn = \<lparr>A = a, B = b, C = c, V = v, W = w\<rparr>;
          act = \<lparr>A = a, B = b, C = c, V = v, W = w, Q = q, R = r\<rparr>
      in System_init act dyn)"

definition xdim :: "'a System \<Rightarrow> nat" where
  "xdim self = nrows (A (dynamics self))"

definition bdim :: "'a System \<Rightarrow> nat" where
  "bdim self = nrows (A (actor self))"

definition udim :: "'a System \<Rightarrow> nat" where
  "udim self = ncols (B (dynamics self))"

section \<open>\<open>System.simulate\<close>\<close>

text \<open>The body of the scan in \<open>simulate_trial\<close>. \<open>Lg\<close> and \<open>Kg\<close> are the values of
  \<open>self.actor.L(T=T)\<close> and \<open>self.actor.K(T=T)\<close>, computed once in \<open>simulate\<close>; the step index
  \<open>t\<close> selects rows of the two noise arrays. In Python unary minus binds tighter than \<open>@\<close>.\<close>

definition loop :: "('a::comm_ring_1) System \<Rightarrow> 'a array2 \<Rightarrow> 'a array2 \<Rightarrow> 'a array2 \<Rightarrow> 'a array2
    \<Rightarrow> 'a array1 \<times> 'a array1 \<Rightarrow> nat
    \<Rightarrow> (('a array1 \<times> 'a array1) \<times> ('a array1 \<times> 'a array1 \<times> 'a array1 \<times> 'a array1)) option" where
  "loop self Lg Kg epsilon eta carry t =
     (case carry of (x, x_hat) \<Rightarrow>
      do { u \<leftarrow> matvec (mneg Lg) x_hat;
           ax \<leftarrow> matvec (A (dynamics self)) x;
           bu \<leftarrow> matvec (B (dynamics self)) u;
           s \<leftarrow> vadd ax bu;
           ve \<leftarrow> matvec (V (dynamics self)) (jnp_index epsilon t);
           x' \<leftarrow> vadd s ve;
           cx \<leftarrow> matvec (C (dynamics self)) x';
           wn \<leftarrow> matvec (W (dynamics self)) (jnp_index eta t);
           y \<leftarrow> vadd cx wn;
           ah \<leftarrow> matvec (A (actor self)) x_hat;
           bh \<leftarrow> matvec (B (actor self)) u;
           x_pred \<leftarrow> vadd ah bh;
           cp \<leftarrow> matvec (C (actor self)) x_pred;
           innov \<leftarrow> vsub y cp;
           ki \<leftarrow> matvec Kg innov;
           x_hat' \<leftarrow> vadd x_pred ki;
           Some ((x', x_hat'), (x', x_hat', y, u)) })"

definition same_carry :: "'a array1 \<times> 'a array1 \<Rightarrow> 'a array1 \<times> 'a array1 \<Rightarrow> bool" where
  "same_carry c c' = (length (fst c) = length (fst c') \<and> length (snd c) = length (snd c'))"

text \<open>\<open>simulate_trial\<close>: the four returned arrays are the states, the beliefs, the
  observations and the actions of one trial. The traced index of the scan over
  \<open>jnp.arange(1, T)\<close> is represented by 1.\<close>

definition simulate_trial :: "('a::comm_ring_1, 'k) lib \<Rightarrow> 'a System \<Rightarrow> 'a array2 \<Rightarrow> 'a array2 \<Rightarrow> 'k
    \<Rightarrow> nat \<Rightarrow> 'a array1 option \<Rightarrow> 'a array1 option
    \<Rightarrow> ('a array2 \<times> 'a array2 \<times> 'a array2 \<times> 'a array2) option" where
  "simulate_trial lb self Lg Kg rng_key T x0 xhat0 =
     (let x0 = (case x0 of None \<Rightarrow> zeros_vec (xdim self) | Some v \<Rightarrow> v);
          xhat0 = (case xhat0 of None \<Rightarrow> zeros_vec (bdim self) | Some v \<Rightarrow> v);
          subkey = random_split lb rng_key 2 1;
          rng_key = random_split lb rng_key 2 0;
          epsilon = normal lb subkey (T, length x0);
          subkey = random_split lb rng_key 2 1;
          rng_key = random_split lb rng_key 2 0;
          eta = normal lb subkey (T, length x0)
      in do { (_, out) \<leftarrow> scan same_carry (loop self Lg Kg epsilon eta) (x0, xhat0) [1..<T] 1;
              let x = map (\<lambda>(x, x_hat, y, u). x) out;
              let x_hat = map (\<lambda>(x, x_hat, y, u). x_hat) out;
              let y = map (\<lambda>(x, x_hat, y, u). y) out;
              let u = map (\<lambda>(x, x_hat, y, u). u) out;
              xs \<leftarrow> vstack_row x0 x;
              xhs \<leftarrow> vstack_row xhat0 x_hat;
              cx0 \<leftarrow> matvec (C (dynamics self)) x0;
              ve0 \<leftarrow> matvec (V (dynamics self)) (jnp_index eta 0);
              y0 \<leftarrow> vadd cx0 ve0;
              Some (xs, xhs, [y0], u) })"

text \<open>The value of \<open>simulate\<close>: the states alone, or the four arrays when \<open>return_all\<close> is set.
  \<open>vmap(..., out_axes=1)\<close> puts the trial axis second.\<close>

datatype 'a sim_result =
  States "'a array3"
| All_arrays "'a array3" "'a array3" "'a array3" "'a array3"

definition simulate :: "('a::comm_ring_1, 'k) lib \<Rightarrow> 'a System \<Rightarrow> 'k \<Rightarrow> nat \<Rightarrow> nat \<Rightarrow> 'a array1 option
    \<Rightarrow> bool \<Rightarrow> 'a sim_result option" where
  "simulate lb self rng_key n T x0 return_all =
     do { Lg \<leftarrow> L lb (actor self) T;
          Kg \<leftarrow> K lb (actor self) T;
          trials \<leftarrow> map_raising (\<lambda>key. simulate_trial lb self Lg Kg key T x0 None)
                      (split_keys lb rng_key n);
          let x = mtransp (map (\<lambda>(x, x_hat, y, u). x) trials);
          let x_hat = mtransp (map (\<lambda>(x, x_hat, y, u). x_hat) trials);
          let y = mtransp (map (\<lambda>(x, x_hat, y, u). y) trials);
          let u = mtransp (map (\<lambda>(x, x_hat, y, u). u) trials);
          if return_all then Some (All_arrays x x_hat y u) else Some (States x) }"

text \<open>The initial state used by \<open>simulate_trial\<close> (its first line), and the components of
  the value of \<open>simulate\<close>.\<close>

definition initial_state :: "'a System \<Rightarrow> ('a::zero) array1 option \<Rightarrow> 'a array1" where
  "initial_state self x0 = (case x0 of None \<Rightarrow> zeros_vec (xdim self) | Some v \<Rightarrow> v)"

fun states_of :: "'a sim_result \<Rightarrow> 'a array3" where
  "states_of (States x) = x"
| "states_of (All_arrays x x_hat y u) = x"

fun beliefs_of :: "'a sim_result \<Rightarrow> 'a array3" where
  "beliefs_of (States x) = []"
| "beliefs_of (All_arrays x x_hat y u) = x_hat"

fun observations_of :: "'a sim_result \<Rightarrow> 'a array3" where
  "observations_of (States x) = []"
| "observations_of (All_arrays x x_hat y u) = y"

fun actions_of :: "'a sim_result \<Rightarrow> 'a array3" where
  "actions_of (States x) = []"
| "actions_of (All_arrays x x_hat y u) = u"

text \<open>The keys handed to \<open>random.normal\<close> in a call of \<open>simulate\<close>: two for each of the
  \<open>n\<close> trial keys split off \<open>rng_key\<close>.\<close>

definition noise_keys :: "('a, 'k) lib \<Rightarrow> 'k \<Rightarrow> nat \<Rightarrow> 'k list" where
  "noise_keys lb rng_key n =
     concat (map (\<lambda>key. [random_split lb key 2 1,
                           random_split lb (random_split lb key 2 0) 2 1])
                 (split_keys lb rng_key n))"




section \<open>\<open>System.conditional_moments\<close>, \<open>conditional_distribution\<close>, \<open>log_likelihood\<close>\<close>

text \<open>The matrices \<open>F\<close> and \<open>G\<close> assembled at the start of \<open>conditional_moments\<close>.\<close>

definition F_matrix :: "('a::comm_ring_1) System \<Rightarrow> 'a array2 \<Rightarrow> 'a array2 \<Rightarrow> 'a array2 option" where
  "F_matrix self Lg Kg =
     do { nbl \<leftarrow> matmul (mneg (B (dynamics self))) Lg;
          top \<leftarrow> hstack (A (dynamics self)) nbl;
          kc \<leftarrow> matmul Kg (C (dynamics self));
          kca \<leftarrow> matmul kc (A (dynamics self));
          bl \<leftarrow> matmul (B (actor self)) Lg;
          a_bl \<leftarrow> msub (A (actor self)) bl;
          kc' \<leftarrow> matmul Kg (C (actor self));
          kca' \<leftarrow> matmul kc' (A (actor self));
          blk \<leftarrow> msub a_bl kca';
          bot \<leftarrow> hstack kca blk;
          vstack top bot }"

definition G_matrix :: "('a::comm_ring_1) System \<Rightarrow> 'a array2 \<Rightarrow> 'a array2 option" where
  "G_matrix self Kg =
     do { top \<leftarrow> hstack (V (dynamics self)) (zeros_like (mtransp (C (dynamics self))));
          kc \<leftarrow> matmul Kg (C (dynamics self));
          kcv \<leftarrow> matmul kc (V (dynamics self));
          kw \<leftarrow> matmul Kg (W (dynamics self));
          bot \<leftarrow> hstack kcv kw;
          vstack top bot }"

text \<open>The body \<open>f\<close> of the scan in \<open>conditional_moments\<close>; \<open>mu\<close> and \<open>Sig\<close> (the source's
  \<open>Sigma\<close>) on the right-hand sides are the carry the step receives.\<close>

definition f_step :: "('a::comm_ring_1, 'k) lib \<Rightarrow> 'a array2 \<Rightarrow> 'a array2 \<Rightarrow> nat
    \<Rightarrow> 'a array2 \<times> 'a array2 \<Rightarrow> 'a array2
    \<Rightarrow> (('a array2 \<times> 'a array2) \<times> ('a array2 \<times> 'a array2)) option" where
  "f_step lb Fm Gm d carry xt =
     (case carry of (mu, Sig) \<Rightarrow>
      do { mu_ft \<leftarrow> matmul mu (mtransp Fm);
           innov \<leftarrow> msub xt (cols_upto d mu);
           iv \<leftarrow> jnp_linalg_inv lb (block_upto d Sig);
           t1 \<leftarrow> matmul innov (mtransp iv);
           fs \<leftarrow> matmul Fm Sig;
           t2 \<leftarrow> matmul t1 (mtransp (cols_upto d fs));
           mu' \<leftarrow> madd mu_ft t2;
           fs \<leftarrow> matmul Fm Sig;
           fsft \<leftarrow> matmul fs (mtransp Fm);
           ggt \<leftarrow> matmul Gm (mtransp Gm);
           pred \<leftarrow> madd fsft ggt;
           fs \<leftarrow> matmul Fm Sig;
           iv \<leftarrow> jnp_linalg_inv lb (block_upto d Sig);
           t3 \<leftarrow> matmul (cols_upto d fs) iv;
           sft \<leftarrow> matmul Sig (mtransp Fm);
           t4 \<leftarrow> matmul t3 (rows_upto d sft);
           Sig' \<leftarrow> msub pred t4;
           Some ((mu', Sig'), (mu', Sig')) })"

definition same_moments :: "'a array2 \<times> 'a array2 \<Rightarrow> 'a array2 \<times> 'a array2 \<Rightarrow> bool" where
  "same_moments c c' =
     (nrows (fst c) = nrows (fst c') \<and> ncols (fst c) = ncols (fst c') \<and>
      nrows (snd c) = nrows (snd c') \<and> ncols (snd c) = ncols (snd c'))"

definition conditional_moments :: "('a::comm_ring_1, 'k) lib \<Rightarrow> 'a System \<Rightarrow> 'a array3
    \<Rightarrow> 'a array2 option \<Rightarrow> ('a array3 \<times> 'a array3) option" where
  "conditional_moments lb self x mu0 =
     (case shape3 x of (T, n, d) \<Rightarrow>
      do { Lg \<leftarrow> L lb (actor self) T;
           Kg \<leftarrow> K lb (actor self) T;
           Fm \<leftarrow> F_matrix self Lg Kg;
           Gm \<leftarrow> G_matrix self Kg;
           let mu = (case mu0 of
                       None \<Rightarrow> zeros n (nrows (A (dynamics self)) + nrows (A (actor self)))
                     | Some m \<Rightarrow> m);
           Sig \<leftarrow> matmul Gm (mtransp Gm);
           (_, out) \<leftarrow> scan same_moments (f_step lb Fm Gm d) (mu, Sig) x
                         (case x of [] \<Rightarrow> [] | xt # _ \<Rightarrow> xt);
           Some (map fst out, map snd out) })"

text \<open>The \<open>MultivariateNormal\<close> built by \<open>conditional_distribution\<close>: \<open>loc\<close> of shape
  \<open>(n, T, d)\<close> and \<open>covariance_matrix\<close> of shape \<open>(T, d, d)\<close>.\<close>

record 'a mvn =
  loc :: "'a array3"
  covariance_matrix :: "'a array3"

definition conditional_distribution :: "('a::comm_ring_1, 'k) lib \<Rightarrow> 'a System \<Rightarrow> 'a array3
    \<Rightarrow> 'a mvn option" where
  "conditional_distribution lb self x =
     (case shape3 x of (T, n, d) \<Rightarrow>
      do { (mu, Sig) \<leftarrow> conditional_moments lb self x None;
           Some \<lparr>loc = mtransp (map (cols_upto d) mu),
                 covariance_matrix = map (block_upto d) Sig\<rparr> })"

text \<open>\<open>log_prob\<close> of that distribution: one log-density for every trial and every time step,
  the covariance of step \<open>t\<close> being shared by the trials. The batch axes of the value must
  agree with those of the distribution; in \<open>log_likelihood\<close> both come from the same
  trajectory.\<close>

definition log_prob :: "('a, 'k) lib \<Rightarrow> 'a mvn \<Rightarrow> 'a array3 \<Rightarrow> 'a array2 option" where
  "log_prob lb mv v =
     (if length v = length (loc mv) \<and>
         list_all (\<lambda>i. length (v ! i) = length (covariance_matrix mv) \<and>
                        length (loc mv ! i) = length (covariance_matrix mv))
                  [0..<length v]
      then Some (map (\<lambda>i. map (\<lambda>t. mvn_log_prob lb (loc mv ! i ! t)
                                         (covariance_matrix mv ! t) (v ! i ! t))
                                [0..<length (covariance_matrix mv)])
                     [0..<length v])
      else None)"

definition log_likelihood :: "('a::comm_ring_1, 'k) lib \<Rightarrow> 'a System \<Rightarrow> 'a array3
    \<Rightarrow> 'a array2 option" where
  "log_likelihood lb self x =
     do { mv \<leftarrow> conditional_distribution lb self (butlast x);
          log_prob lb mv (mtransp (tl x)) }"

section \<open>Shape conditions and concrete instances\<close>

text \<open>The shapes under which every operation of \<open>simulate\<close> applies: state dimension \<open>nx\<close>,
  action dimension \<open>nu\<close>, belief dimension \<open>nb\<close>. The noise rows drawn in \<open>simulate_trial\<close>
  have the length of the state, so the observation has that length too.\<close>

definition sim_shapes :: "'a System \<Rightarrow> 'a array2 \<Rightarrow> 'a array2 \<Rightarrow> nat \<Rightarrow> nat \<Rightarrow> nat \<Rightarrow> bool" where
  "sim_shapes self Lg Kg nx nu nb =
     (0 < nx \<and> 0 < nu \<and> 0 < nb \<and>
      is_mat nx nx (A (dynamics self)) \<and> is_mat nx nu (B (dynamics self)) \<and>
      is_mat nx nx (C (dynamics self)) \<and> is_mat nx nx (V (dynamics self)) \<and>
      is_mat nx nx (W (dynamics self)) \<and>
      is_mat nb nb (A (actor self)) \<and> is_mat nb nu (B (actor self)) \<and>
      is_mat nx nb (C (actor self)) \<and>
      is_mat nu nb Lg \<and> is_mat nb nx Kg)"

text \<open>A scalar system over the rationals with fixed gains, keys that are natural numbers and
  an arbitrary deterministic noise table, on which the definitions can be run.\<close>

definition demo_lib :: "(rat, nat) lib" where
  "demo_lib =
     \<lparr>control_law = (\<lambda>a b q r T. Some [[1 / 2]]),
      kalman_gain = (\<lambda>a c v w T. Some [[1 / 3]]),
      linalg_inv = (\<lambda>M i j. inverse (M ! 0 ! 0)),
      random_split = (\<lambda>key num i. key * num + i + 1),
      random_normal = (\<lambda>key shp i j. of_nat (key + i) - 5),
      mvn_log_prob = (\<lambda>m c v. - ((v ! 0 - m ! 0) * (v ! 0 - m ! 0) * inverse (c ! 0 ! 0)))\<rparr>"

definition demo_dynamics :: "rat Dynamics" where
  "demo_dynamics = \<lparr>A = [[1]], B = [[1]], C = [[1]], V = [[1]], W = [[2]]\<rparr>"

definition demo_actor :: "rat Actor" where
  "demo_actor = \<lparr>A = [[1]], B = [[1]], C = [[1]], V = [[1]], W = [[2]], Q = [[1]], R = [[1]]\<rparr>"

definition demo_system :: "rat System" where
  "demo_system = \<lparr>actor = demo_actor, dynamics = demo_dynamics\<rparr>"

text \<open>Plant matrices whose shapes disagree: \<open>B\<close> has two rows, \<open>A\<close> has one.\<close>

definition mismatched_dynamics :: "rat Dynamics" where
  "mismatched_dynamics = \<lparr>A = [[1]], B = [[1], [1]], C = [[1]], V = [[1]], W = [[2]]\<rparr>"

definition mismatched_system :: "rat System" where
  "mismatched_system = \<lparr>actor = demo_actor, dynamics = mismatched_dynamics\<rparr>"

text \<open>The system of the \<open>__main__\<close> block of \<open>lqg/model.py\<close> (two states, one action,
  \<open>dt = 1/60\<close>), with fixed gains of the shapes the program needs and the inverse of a
  matrix of one or two rows by the adjugate formula.\<close>

definition small_inv :: "rat array2 \<Rightarrow> nat \<Rightarrow> nat \<Rightarrow> rat" where
  "small_inv M i j =
     (if length M = 1 then inverse (M ! 0 ! 0)
      else (if i = j then M ! (1 - i) ! (1 - j) else - (M ! i ! j)) /
           (M ! 0 ! 0 * M ! 1 ! 1 - M ! 0 ! 1 * M ! 1 ! 0))"

definition main_lib :: "(rat, nat) lib" where
  "main_lib =
     \<lparr>control_law = (\<lambda>a b q r T. Some [[1, 2]]),
      kalman_gain = (\<lambda>a c v w T. Some [[1 / 2, 0], [0, 1 / 4]]),
      linalg_inv = small_inv,
      random_split = (\<lambda>key num i. key * num + i + 1),
      random_normal = (\<lambda>key shp i j. of_nat (key + i + 2 * j) - 5),
      mvn_log_prob = (\<lambda>m c v. - ((v ! 0 - m ! 0) * (v ! 0 - m ! 0) * inverse (c ! 0 ! 0)))\<rparr>"

definition main_dynamics :: "rat Dynamics" where
  "main_dynamics =
     \<lparr>A = [[1, 0], [0, 1]], B = [[0], [1 / 60]], C = [[1, 0], [0, 1]],
      V = [[1, 0], [0, 1 / 2]], W = [[6, 0], [0, 3]]\<rparr>"

definition main_actor :: "rat Actor" where
  "main_actor =
     \<lparr>A = [[1, 0], [0, 1]], B = [[0], [1 / 60]], C = [[1, 0], [0, 1]],
      V = [[1, 0], [0, 1 / 2]], W = [[6, 0], [0, 3]],
      Q = [[1, - 1], [- 1, 1]], R = [[1 / 2]]\<rparr>"

definition main_system :: "rat System" where
  "main_system = \<lparr>actor = main_actor, dynamics = main_dynamics\<rparr>"

text \<open>The library of the scalar instance with another noise table off the keys a call
  \<open>simulate demo_lib demo_system 0 2 ...\<close> uses, and another inverse.\<close>

definition demo_lib_other :: "(rat, nat) lib" where
  "demo_lib_other =
     demo_lib\<lparr>linalg_inv := (\<lambda>M i j. 0),
               random_normal := (\<lambda>key shp i j.
                  if key \<in> {4, 6, 8, 12} then random_normal demo_lib key shp i j else 42)\<rparr>"

section \<open>Auxiliary notions for the filtering recursion\<close>

text \<open>The array of shape \<open>(r, c)\<close> with entry \<open>g i j\<close> at \<open>(i, j)\<close>.\<close>

definition tab :: "nat \<Rightarrow> nat \<Rightarrow> (nat \<Rightarrow> nat \<Rightarrow> 'a) \<Rightarrow> 'a array2" where
  "tab r c g = map (\<lambda>i. map (\<lambda>j. g i j) [0..<c]) [0..<r]"

text \<open>The shapes under which every operation of \<open>conditional_moments\<close> applies: state
  dimension \<open>nx\<close>, action dimension \<open>nu\<close>, belief dimension \<open>nb\<close>, observation dimension
  \<open>no\<close>.\<close>

definition filter_shapes :: "'a System \<Rightarrow> 'a array2 \<Rightarrow> 'a array2 \<Rightarrow> nat \<Rightarrow> nat \<Rightarrow> nat \<Rightarrow> nat \<Rightarrow> bool" where
  "filter_shapes self Lg Kg nx nu nb no =
     (0 < nx \<and> 0 < nu \<and> 0 < nb \<and> 0 < no \<and>
      is_mat nx nx (A (dynamics self)) \<and> is_mat nx nu (B (dynamics self)) \<and>
      is_mat no nx (C (dynamics self)) \<and> is_mat nx nx (V (dynamics self)) \<and>
      is_mat no no (W (dynamics self)) \<and>
      is_mat nb nb (A (actor self)) \<and> is_mat nb nu (B (actor self)) \<and>
      is_mat no nb (C (actor self)) \<and>
      is_mat nu nb Lg \<and> is_mat nb no Kg)"

text \<open>Sum and difference of two arrays of the same shape, entry by entry: what \<open>+\<close> and \<open>-\<close>
  compute when nothing is broadcast.\<close>

definition padd :: "('a::comm_ring_1) array2 \<Rightarrow> 'a array2 \<Rightarrow> 'a array2" where
  "padd M N = tab (nrows M) (ncols M) (\<lambda>i j. M ! i ! j + N ! i ! j)"

definition psub :: "('a::comm_ring_1) array2 \<Rightarrow> 'a array2 \<Rightarrow> 'a array2" where
  "psub M N = tab (nrows M) (ncols M) (\<lambda>i j. M ! i ! j - N ! i ! j)"

text \<open>The array \<open>jnp.linalg.inv\<close> returns for a square argument.\<close>

definition inv_of :: "('a, 'k) lib \<Rightarrow> 'a array2 \<Rightarrow> 'a array2" where
  "inv_of lb M = tab (nrows M) (ncols M) (linalg_inv lb M)"

text \<open>The scalar system with no process and no observation noise (\<open>V = W = 0\<close>): the joint
  covariance, and with it its observed block, is zero at every step.\<close>

definition noiseless_dynamics :: "rat Dynamics" where
  "noiseless_dynamics = \<lparr>A = [[1]], B = [[1]], C = [[1]], V = [[0]], W = [[0]]\<rparr>"

definition noiseless_actor :: "rat Actor" where
  "noiseless_actor =
     \<lparr>A = [[1]], B = [[1]], C = [[1]], V = [[0]], W = [[0]], Q = [[1]], R = [[1]]\<rparr>"

definition noiseless_system :: "rat System" where
  "noiseless_system = \<lparr>actor = noiseless_actor, dynamics = noiseless_dynamics\<rparr>"

text \<open>A trajectory of three steps and two trials of dimension one.\<close>

definition demo_trajectory :: "rat array3" where
  "demo_trajectory = [[[1], [2]], [[0], [3]], [[1], [1]]]"

text \<open>Its first two steps.\<close>

definition short_trajectory :: "rat array3" where
  "short_trajectory = [[[1], [2]], [[0], [3]]]"

section \<open>The two stages of a filtering step, in the words of the specification\<close>

text \<open>Section 4.3 of the specification: \<open>predict\<close> propagates a mean and a covariance through
  \<open>F\<close> and adds \<open>G G\<^sup>T\<close>; \<open>condition_on\<close> conditions a mean and a covariance on the observed
  first \<open>d\<close> coordinates by the Gaussian conditioning identity (innovation, inverse of the
  observed block, Schur complement). The means are stored one row per trial, as in the
  program. \<open>spec_f_step\<close> is the step as the specification orders it: predict, then condition
  the predicted moments.\<close>

definition predict :: "('a::comm_ring_1) array2 \<Rightarrow> 'a array2 \<Rightarrow> 'a array2 \<times> 'a array2
    \<Rightarrow> ('a array2 \<times> 'a array2) option" where
  "predict Fm Gm carry =
     (case carry of (mu, Sig) \<Rightarrow>
      do { mu_pred \<leftarrow> matmul mu (mtransp Fm);
           fs \<leftarrow> matmul Fm Sig;
           fsft \<leftarrow> matmul fs (mtransp Fm);
           ggt \<leftarrow> matmul Gm (mtransp Gm);
           Sig_pred \<leftarrow> madd fsft ggt;
           Some (mu_pred, Sig_pred) })"

definition condition_on :: "('a::comm_ring_1, 'k) lib \<Rightarrow> nat \<Rightarrow> 'a array2 \<times> 'a array2 \<Rightarrow> 'a array2
    \<Rightarrow> ('a array2 \<times> 'a array2) option" where
  "condition_on lb d carry xt =
     (case carry of (mu, Sig) \<Rightarrow>
      do { innov \<leftarrow> msub xt (cols_upto d mu);
           iv \<leftarrow> jnp_linalg_inv lb (block_upto d Sig);
           scaled \<leftarrow> matmul innov (mtransp iv);
           corr \<leftarrow> matmul scaled (mtransp (cols_upto d Sig));
           mu' \<leftarrow> madd mu corr;
           gain \<leftarrow> matmul (cols_upto d Sig) iv;
           schur \<leftarrow> matmul gain (rows_upto d Sig);
           Sig' \<leftarrow> msub Sig schur;
           Some (mu', Sig') })"

definition spec_f_step :: "('a::comm_ring_1, 'k) lib \<Rightarrow> 'a array2 \<Rightarrow> 'a array2 \<Rightarrow> nat
    \<Rightarrow> 'a array2 \<times> 'a array2 \<Rightarrow> 'a array2
    \<Rightarrow> (('a array2 \<times> 'a array2) \<times> ('a array2 \<times> 'a array2)) option" where
  "spec_f_step lb Fm Gm d carry xt =
     do { p \<leftarrow> predict Fm Gm carry;
          c \<leftarrow> condition_on lb d p xt;
          Some (c, c) }"

text \<open>A plant whose \<open>A\<close> is not square (one row, three columns), with a controller of belief
  dimension one and gains of the shapes the recursion then needs. The state dimension
  \<open>A.shape[0]\<close> is 1, yet the recursion runs on states of length 3: \<open>A @ x\<close> has length 1 and
  is broadcast against \<open>B @ u\<close> of length 3.\<close>

definition wide_lib :: "(rat, nat) lib" where
  "wide_lib = demo_lib\<lparr>kalman_gain := (\<lambda>a c v w T. Some [[1 / 3, 0, 0]])\<rparr>"

definition wide_dynamics :: "rat Dynamics" where
  "wide_dynamics =
     \<lparr>A = [[1, 1, 1]], B = [[1], [1], [1]], C = [[1, 0, 0], [0, 1, 0], [0, 0, 1]],
      V = [[1, 0, 0], [0, 1, 0], [0, 0, 1]], W = [[1, 0, 0], [0, 1, 0], [0, 0, 1]]\<rparr>"

definition wide_actor :: "rat Actor" where
  "wide_actor =
     \<lparr>A = [[1]], B = [[1]], C = [[1], [1], [1]], V = [[1]], W = [[1]], Q = [[1]], R = [[1]]\<rparr>"

definition wide_system :: "rat System" where
  "wide_system = \<lparr>actor = wide_actor, dynamics = wide_dynamics\<rparr>"

section \<open>Shapes of the array operations\<close>

lemma is_mat_length: "is_mat r c M \<Longrightarrow> length M = r"
  by (simp add: is_mat_def)

lemma is_mat_nrows: "is_mat r c M \<Longrightarrow> nrows M = r"
  by (simp add: is_mat_def nrows_def)

lemma is_mat_row: "is_mat r c M \<Longrightarrow> i < r \<Longrightarrow> length (M ! i) = c"
  by (auto simp: is_mat_def list_all_length)

lemma is_mat_ncols: "is_mat r c M \<Longrightarrow> 0 < r \<Longrightarrow> ncols M = c"
  by (cases M) (auto simp: is_mat_def ncols_def)

lemma is_mat_mneg: "is_mat r c M \<Longrightarrow> is_mat r c (mneg M)"
  by (auto simp: is_mat_def mneg_def list_all_iff)

lemma matvec_ok:
  assumes "is_mat r c M" "0 < r" "length x = c"
  shows "\<exists>v. matvec M x = Some v \<and> length v = r"
  using assms by (simp add: matvec_def is_mat_ncols is_mat_length)

lemma bcast1_same:
  assumes "length u = length v"
  shows "\<exists>w. bcast1 g u v = Some w \<and> length w = length u"
  using assms by (simp add: bcast1_def bcompat_def blen_def)

lemma vadd_ok: "length u = k \<Longrightarrow> length v = k \<Longrightarrow> \<exists>w. vadd u v = Some w \<and> length w = k"
  using bcast1_same [of u v "(+)"] by (simp add: vadd_def)

lemma vsub_ok: "length u = k \<Longrightarrow> length v = k \<Longrightarrow> \<exists>w. vsub u v = Some w \<and> length w = k"
  using bcast1_same [of u v "(-)"] by (simp add: vsub_def)

lemma jnp_index_row: "is_mat r c M \<Longrightarrow> 0 < r \<Longrightarrow> length (jnp_index M t) = c"
  by (auto simp: jnp_index_def is_mat_def list_all_length)

lemma is_mat_normal: "is_mat r c (normal lb key (r, c))"
  by (simp add: is_mat_def normal_def list_all_iff)

section \<open>The simulation step\<close>

lemma loop_ok:
  assumes sh: "sim_shapes self Lg Kg nx nu nb"
    and x: "length x = nx" and xh: "length x_hat = nb"
    and eps: "length (jnp_index epsilon t) = nx" and eta: "length (jnp_index eta t) = nx"
  shows "\<exists>x' x_hat' y u. loop self Lg Kg epsilon eta (x, x_hat) t = Some ((x', x_hat'), (x', x_hat', y, u))
           \<and> length x' = nx \<and> length x_hat' = nb \<and> length y = nx \<and> length u = nu"
proof -
  from sh have pos: "0 < nx" "0 < nu" "0 < nb"
    and mA: "is_mat nx nx (A (dynamics self))" and mB: "is_mat nx nu (B (dynamics self))"
    and mC: "is_mat nx nx (C (dynamics self))" and mV: "is_mat nx nx (V (dynamics self))"
    and mW: "is_mat nx nx (W (dynamics self))"
    and aA: "is_mat nb nb (A (actor self))" and aB: "is_mat nb nu (B (actor self))"
    and aC: "is_mat nx nb (C (actor self))"
    and mL: "is_mat nu nb Lg" and mK: "is_mat nb nx Kg"
    by (simp_all add: sim_shapes_def)
  obtain u where u: "matvec (mneg Lg) x_hat = Some u" "length u = nu"
    using matvec_ok [OF is_mat_mneg [OF mL] pos(2) xh] by blast
  obtain ax where ax: "matvec (A (dynamics self)) x = Some ax" "length ax = nx"
    using matvec_ok [OF mA pos(1) x] by blast
  obtain bu where bu: "matvec (B (dynamics self)) u = Some bu" "length bu = nx"
    using matvec_ok [OF mB pos(1) u(2)] by blast
  obtain s where s: "vadd ax bu = Some s" "length s = nx"
    using vadd_ok [OF ax(2) bu(2)] by blast
  obtain ve where ve: "matvec (V (dynamics self)) (jnp_index epsilon t) = Some ve" "length ve = nx"
    using matvec_ok [OF mV pos(1) eps] by blast
  obtain x' where x': "vadd s ve = Some x'" "length x' = nx"
    using vadd_ok [OF s(2) ve(2)] by blast
  obtain cx where cx: "matvec (C (dynamics self)) x' = Some cx" "length cx = nx"
    using matvec_ok [OF mC pos(1) x'(2)] by blast
  obtain wn where wn: "matvec (W (dynamics self)) (jnp_index eta t) = Some wn" "length wn = nx"
    using matvec_ok [OF mW pos(1) eta] by blast
  obtain y where y: "vadd cx wn = Some y" "length y = nx"
    using vadd_ok [OF cx(2) wn(2)] by blast
  obtain ah where ah: "matvec (A (actor self)) x_hat = Some ah" "length ah = nb"
    using matvec_ok [OF aA pos(3) xh] by blast
  obtain bh where bh: "matvec (B (actor self)) u = Some bh" "length bh = nb"
    using matvec_ok [OF aB pos(3) u(2)] by blast
  obtain x_pred where xp: "vadd ah bh = Some x_pred" "length x_pred = nb"
    using vadd_ok [OF ah(2) bh(2)] by blast
  obtain cp where cp: "matvec (C (actor self)) x_pred = Some cp" "length cp = nx"
    using matvec_ok [OF aC pos(1) xp(2)] by blast
  obtain innov where innov: "vsub y cp = Some innov" "length innov = nx"
    using vsub_ok [OF y(2) cp(2)] by blast
  obtain ki where ki: "matvec Kg innov = Some ki" "length ki = nb"
    using matvec_ok [OF mK pos(3) innov(2)] by blast
  obtain x_hat' where xh': "vadd x_pred ki = Some x_hat'" "length x_hat' = nb"
    using vadd_ok [OF xp(2) ki(2)] by blast
  have "loop self Lg Kg epsilon eta (x, x_hat) t = Some ((x', x_hat'), (x', x_hat', y, u))"
    by (simp add: loop_def u ax bu s ve x' cx wn y ah bh xp cp innov ki xh')
  then show ?thesis using x'(2) xh'(2) y(2) u(2) by blast
qed

section \<open>Scans\<close>

lemma scan_loop_invariant:
  assumes step: "\<And>c x. I c \<Longrightarrow> x \<in> set xs \<Longrightarrow> \<exists>c' y. g c x = Some (c', y) \<and> I c' \<and> P y"
    and init: "I c"
  shows "\<exists>cf ys. scan_loop g c xs = Some (cf, ys) \<and> I cf \<and> length ys = length xs \<and> list_all P ys"
  using assms
proof (induction xs arbitrary: c)
  case Nil
  then show ?case by simp
next
  case (Cons x xs)
  from Cons.prems(1) [OF Cons.prems(2), of x]
  obtain c' y where g: "g c x = Some (c', y)" and c': "I c'" and y: "P y" by auto
  have "\<exists>cf ys. scan_loop g c' xs = Some (cf, ys) \<and> I cf \<and> length ys = length xs \<and> list_all P ys"
    using Cons.IH [OF _ c'] Cons.prems(1) by simp
  then obtain cf ys where r: "scan_loop g c' xs = Some (cf, ys)" "I cf" "length ys = length xs"
    "list_all P ys" by blast
  show ?case using g r y by simp
qed

lemma scan_invariant:
  assumes step: "\<And>c x. I c \<Longrightarrow> x \<in> insert x_tr (set xs) \<Longrightarrow> \<exists>c' y. g c x = Some (c', y) \<and> I c' \<and> P y"
    and same: "\<And>c c'. I c \<Longrightarrow> I c' \<Longrightarrow> same c c'"
    and init: "I c"
  shows "\<exists>cf ys. scan same g c xs x_tr = Some (cf, ys) \<and> I cf \<and> length ys = length xs \<and> list_all P ys"
proof -
  obtain c' y where g: "g c x_tr = Some (c', y)" and c': "I c'"
    using step [OF init, of x_tr] by auto
  have "\<exists>cf ys. scan_loop g c xs = Some (cf, ys) \<and> I cf \<and> length ys = length xs \<and> list_all P ys"
    by (rule scan_loop_invariant [where I = I]) (use step init in auto)
  then show ?thesis using g same [OF init c'] by (simp add: scan_def)
qed


lemma map_raising_all:
  assumes "\<And>k. k \<in> set ks \<Longrightarrow> \<exists>y. g k = Some y \<and> P y"
  shows "\<exists>ys. map_raising g ks = Some ys \<and> length ys = length ks \<and> list_all P ys"
  using assms
proof (induction ks)
  case Nil
  then show ?case by simp
next
  case (Cons k ks)
  obtain y where y: "g k = Some y" "P y" using Cons.prems [of k] by auto
  obtain ys where ys: "map_raising g ks = Some ys" "length ys = length ks" "list_all P ys"
    using Cons.IH Cons.prems by auto
  show ?case using y ys by simp
qed

lemma mtransp_nth:
  assumes "ms \<noteq> []" "t < length (hd ms)"
  shows "mtransp ms ! t = map (\<lambda>m. m ! t) ms"
  using assms by (cases ms) (simp_all add: mtransp_def ncols_def)

lemma mtransp_length: "ms \<noteq> [] \<Longrightarrow> length (mtransp ms) = length (hd ms)"
  by (cases ms) (simp_all add: mtransp_def ncols_def)

lemma mtransp_stack:
  assumes n: "0 < length ms" and all: "list_all (is_mat t d) ms"
  shows "is_arr3 t (length ms) d (mtransp ms)"
proof -
  from n have ne: "ms \<noteq> []" by auto
  then have "hd ms \<in> set ms" by simp
  then have hd: "length (hd ms) = t" using all by (auto simp: list_all_iff is_mat_def)
  have len: "length (mtransp ms) = t" using mtransp_length [OF ne] hd by simp
  have "is_mat (length ms) d (mtransp ms ! i)" if "i < t" for i
  proof -
    have "mtransp ms ! i = map (\<lambda>m. m ! i) ms" using mtransp_nth [OF ne] that hd by simp
    moreover have "length (m ! i) = d" if "m \<in> set ms" for m
      using all that \<open>i < t\<close> by (auto simp: list_all_iff is_mat_def list_all_length)
    ultimately show ?thesis by (simp add: is_mat_def list_all_iff)
  qed
  then show ?thesis using len by (simp add: is_arr3_def list_all_length)
qed

lemma simulate_trial_ok:
  assumes sh: "sim_shapes self Lg Kg nx nu nb" and T: "0 < T"
    and x0: "length (initial_state self x0) = nx"
  shows "\<exists>xs xhs y0 us. simulate_trial lb self Lg Kg key T x0 None = Some (xs, xhs, [y0], us) \<and>
           is_mat T nx xs \<and> is_mat T nb xhs \<and> length y0 = nx \<and> is_mat (T - 1) nu us \<and>
           xs ! 0 = initial_state self x0"
proof -
  define x0v where "x0v = initial_state self x0"
  define xh0 :: "'a list" where "xh0 = zeros_vec (bdim self)"
  define k1 where "k1 = random_split lb key 2 0"
  define epsilon where "epsilon = normal lb (random_split lb key 2 1) (T, nx)"
  define eta where "eta = normal lb (random_split lb k1 2 1) (T, nx)"
  define I :: "'a list \<times> 'a list \<Rightarrow> bool" where "I = (\<lambda>c. length (fst c) = nx \<and> length (snd c) = nb)"
  define P :: "'a list \<times> 'a list \<times> 'a list \<times> 'a list \<Rightarrow> bool" where
    "P = (\<lambda>out. length (fst out) = nx \<and> length (fst (snd out)) = nb \<and>
               length (fst (snd (snd out))) = nx \<and> length (snd (snd (snd out))) = nu)"
  from sh have pos: "0 < nx" "0 < nb"
    and mA: "is_mat nx nx (A (dynamics self))" and aA: "is_mat nb nb (A (actor self))"
    and mC: "is_mat nx nx (C (dynamics self))" and mV: "is_mat nx nx (V (dynamics self))"
    by (simp_all add: sim_shapes_def)
  have lx0: "length x0v = nx" using x0 by (simp add: x0v_def)
  have lxh0: "length xh0 = nb"
    using is_mat_nrows [OF aA] by (simp add: xh0_def zeros_vec_def bdim_def)
  have eps: "length (jnp_index epsilon t) = nx" for t
    unfolding epsilon_def by (rule jnp_index_row [OF is_mat_normal T])
  have eta: "length (jnp_index eta t) = nx" for t
    unfolding eta_def by (rule jnp_index_row [OF is_mat_normal T])
  have step: "\<exists>c' y. loop self Lg Kg epsilon eta c t = Some (c', y) \<and> I c' \<and> P y" if "I c" for c t
  proof -
    obtain x xh where c: "c = (x, xh)" by (cases c)
    with that have "length x = nx" "length xh = nb" by (simp_all add: I_def)
    from loop_ok [OF sh this eps eta, of t] show ?thesis by (auto simp: c I_def P_def)
  qed
  have "\<exists>cf out. scan same_carry (loop self Lg Kg epsilon eta) (x0v, xh0) [1..<T] 1 = Some (cf, out)
          \<and> I cf \<and> length out = length [1..<T] \<and> list_all P out"
    by (rule scan_invariant [where I = I])
      (use step lx0 lxh0 in \<open>auto simp: I_def same_carry_def\<close>)
  then obtain cf out where sc: "scan same_carry (loop self Lg Kg epsilon eta) (x0v, xh0) [1..<T] 1 = Some (cf, out)"
    and lout: "length out = T - 1" and Pout: "list_all P out" by auto
  define x where "x = map (\<lambda>(x, x_hat, y, u). x) out"
  define x_hat where "x_hat = map (\<lambda>(x, x_hat, y, u). x_hat) out"
  define u where "u = map (\<lambda>(x, x_hat, y, u). u) out"
  have allx: "list_all (\<lambda>r. length r = length x0v) x"
    using Pout lx0 by (auto simp: x_def P_def list_all_iff)
  have allxh: "list_all (\<lambda>r. length r = length xh0) x_hat"
    using Pout lxh0 by (auto simp: x_hat_def P_def list_all_iff)
  have allu: "list_all (\<lambda>r. length r = nu) u"
    using Pout by (auto simp: u_def P_def list_all_iff)
  have vx: "vstack_row x0v x = Some (x0v # x)" using allx by (simp add: vstack_row_def)
  have vxh: "vstack_row xh0 x_hat = Some (xh0 # x_hat)" using allxh by (simp add: vstack_row_def)
  obtain cx0 where cx0: "matvec (C (dynamics self)) x0v = Some cx0" "length cx0 = nx"
    using matvec_ok [OF mC pos(1) lx0] by blast
  obtain ve0 where ve0: "matvec (V (dynamics self)) (jnp_index eta 0) = Some ve0" "length ve0 = nx"
    using matvec_ok [OF mV pos(1) eta] by blast
  obtain y0 where y0: "vadd cx0 ve0 = Some y0" "length y0 = nx"
    using vadd_ok [OF cx0(2) ve0(2)] by blast
  have "simulate_trial lb self Lg Kg key T x0 None = Some (x0v # x, xh0 # x_hat, [y0], u)"
    using sc vx vxh cx0(1) ve0(1) y0(1) lx0
    unfolding simulate_trial_def Let_def x0v_def initial_state_def xh0_def k1_def epsilon_def
      eta_def x_def x_hat_def u_def
    by simp
  moreover have "is_mat T nx (x0v # x)"
    using allx lx0 lout T by (simp add: is_mat_def x_def)
  moreover have "is_mat T nb (xh0 # x_hat)"
    using allxh lxh0 lout T by (simp add: is_mat_def x_hat_def)
  moreover have "is_mat (T - 1) nu u"
    using allu lout by (simp add: is_mat_def u_def)
  ultimately show ?thesis using y0(2) by (simp add: x0v_def)
qed


lemma simulate_ok:
  assumes Lg: "L lb (actor self) T = Some Lg" and Kg: "K lb (actor self) T = Some Kg"
    and sh: "sim_shapes self Lg Kg nx nu nb" and n: "0 < n" and T: "0 < T"
    and x0: "length (initial_state self x0) = nx"
  shows "\<exists>x x_hat y u.
           simulate lb self rng_key n T x0 True = Some (All_arrays x x_hat y u) \<and>
           simulate lb self rng_key n T x0 False = Some (States x) \<and>
           is_arr3 T n nx x \<and> is_arr3 T n nb x_hat \<and> is_arr3 1 n nx y \<and> is_arr3 (T - 1) n nu u \<and>
           x ! 0 = replicate n (initial_state self x0)"
proof -
  define P :: "'a list list \<times> 'a list list \<times> 'a list list \<times> 'a list list \<Rightarrow> bool" where
    "P = (\<lambda>r. is_mat T nx (fst r) \<and> is_mat T nb (fst (snd r)) \<and> is_mat 1 nx (fst (snd (snd r))) \<and>
              is_mat (T - 1) nu (snd (snd (snd r))) \<and> fst r ! 0 = initial_state self x0)"
  have "\<exists>r. simulate_trial lb self Lg Kg key T x0 None = Some r \<and> P r" for key
    using simulate_trial_ok [OF sh T x0, of lb key] by (auto simp: P_def is_mat_def)
  then have "\<exists>trials. map_raising (\<lambda>key. simulate_trial lb self Lg Kg key T x0 None)
                 (split_keys lb rng_key n) = Some trials \<and>
               length trials = length (split_keys lb rng_key n) \<and> list_all P trials"
    by (intro map_raising_all) blast
  then obtain trials where tr: "map_raising (\<lambda>key. simulate_trial lb self Lg Kg key T x0 None)
      (split_keys lb rng_key n) = Some trials"
    and len: "length trials = n" and all: "list_all P trials"
    by (auto simp: split_keys_def)
  define xs where "xs = map (\<lambda>(x, x_hat, y, u). x) trials"
  define xhs where "xhs = map (\<lambda>(x, x_hat, y, u). x_hat) trials"
  define ys where "ys = map (\<lambda>(x, x_hat, y, u). y) trials"
  define us where "us = map (\<lambda>(x, x_hat, y, u). u) trials"
  have lens: "length xs = n" "length xhs = n" "length ys = n" "length us = n"
    using len by (simp_all add: xs_def xhs_def ys_def us_def)
  have axs: "list_all (is_mat T nx) xs" using all by (auto simp: xs_def P_def list_all_iff)
  have axhs: "list_all (is_mat T nb) xhs" using all by (auto simp: xhs_def P_def list_all_iff)
  have ays: "list_all (is_mat 1 nx) ys" using all by (auto simp: ys_def P_def list_all_iff)
  have aus: "list_all (is_mat (T - 1) nu) us" using all by (auto simp: us_def P_def list_all_iff)
  have first: "m ! 0 = initial_state self x0" if "m \<in> set xs" for m
    using all that by (auto simp: xs_def P_def list_all_iff)
  have ne: "xs \<noteq> []" using lens n by auto
  then have "hd xs \<in> set xs" by simp
  then have "length (hd xs) = T" using axs by (auto simp: list_all_iff is_mat_def)
  then have "mtransp xs ! 0 = map (\<lambda>m. m ! 0) xs" using mtransp_nth [OF ne, of 0] T by simp
  also have "\<dots> = replicate n (initial_state self x0)"
    using first lens(1) by (simp add: map_replicate_const cong: map_cong)
  finally have row0: "mtransp xs ! 0 = replicate n (initial_state self x0)" .
  have "simulate lb self rng_key n T x0 True = Some (All_arrays (mtransp xs) (mtransp xhs) (mtransp ys) (mtransp us))"
    and "simulate lb self rng_key n T x0 False = Some (States (mtransp xs))"
    using Lg Kg tr unfolding simulate_def xs_def xhs_def ys_def us_def by simp_all
  moreover have "is_arr3 T n nx (mtransp xs)" using mtransp_stack [OF _ axs] lens n by simp
  moreover have "is_arr3 T n nb (mtransp xhs)" using mtransp_stack [OF _ axhs] lens n by simp
  moreover have "is_arr3 1 n nx (mtransp ys)" using mtransp_stack [OF _ ays] lens n by simp
  moreover have "is_arr3 (T - 1) n nu (mtransp us)" using mtransp_stack [OF _ aus] lens n by simp
  ultimately show ?thesis using row0 by blast
qed

section \<open>Shapes of the simulated trajectories\<close>

text \<open>
  C3 (as amended). For every system whose matrices and gains have the shapes the recursion
  needs (\<open>sim_shapes\<close>), every \<open>n \<ge> 1\<close>, every horizon \<open>T \<ge> 1\<close> and every initial state of
  the state dimension (or none), \<open>simulate\<close> returns: a state array of shape
  \<open>(T, n, state-dim)\<close>, a belief array of shape \<open>(T, n, belief-dim)\<close> and an action array of
  shape \<open>(T - 1, n, action-dim)\<close>; with \<open>return_all\<close> unset it returns that same state array;
  and the first row of the state array is the initial state, repeated for each trial. The
  scan runs over \<open>arange(1, T)\<close>, so \<open>T - 1\<close> rows follow the initial one, as the docstring of
  \<open>simulate\<close> says: \<open>(T, n, d)\<close>.
\<close>

theorem simulate_shapes:
  assumes "L lb (actor self) T = Some Lg" and "K lb (actor self) T = Some Kg"
    and "sim_shapes self Lg Kg nx nu nb" and "0 < n" and "0 < T"
    and "length (initial_state self x0) = nx"
  shows "\<exists>res. simulate lb self rng_key n T x0 True = Some res \<and>
           simulate lb self rng_key n T x0 False = Some (States (states_of res)) \<and>
           is_arr3 T n nx (states_of res) \<and> is_arr3 T n nb (beliefs_of res) \<and>
           is_arr3 (T - 1) n nu (actions_of res) \<and>
           states_of res ! 0 = replicate n (initial_state self x0)"
proof -
  from simulate_ok [OF assms, of rng_key]
  obtain x x_hat y u where
    "simulate lb self rng_key n T x0 True = Some (All_arrays x x_hat y u)"
    "simulate lb self rng_key n T x0 False = Some (States x)"
    "is_arr3 T n nx x" "is_arr3 T n nb x_hat" "is_arr3 (T - 1) n nu u"
    "x ! 0 = replicate n (initial_state self x0)"
    by blast
  then show ?thesis by simp
qed

lemma main_gains:
  "L main_lib (actor main_system) T = Some [[1, 2]]"
  "K main_lib (actor main_system) T = Some [[1 / 2, 0], [0, 1 / 4]]"
  by (simp_all add: L_def K_def main_lib_def main_system_def main_actor_def matmul_def
      ncols_def nrows_def mtransp_def)

lemma main_shapes: "sim_shapes main_system [[1, 2]] [[1 / 2, 0], [0, 1 / 4]] 2 1 2"
  by (simp add: sim_shapes_def main_system_def main_actor_def main_dynamics_def is_mat_def)

text \<open>The scenario of the \<open>__main__\<close> block: \<open>T = 1000\<close>, \<open>n = 10\<close>, zero initial state. The
  state array has 1000 rows, the first one zero.\<close>

theorem simulate_shapes_witness:
  "\<exists>res. simulate main_lib main_system (0::nat) 10 1000 (Some [0, 0]) True = Some res \<and>
     simulate main_lib main_system 0 10 1000 (Some [0, 0]) False = Some (States (states_of res)) \<and>
     is_arr3 1000 10 2 (states_of res) \<and> is_arr3 1000 10 2 (beliefs_of res) \<and>
     is_arr3 999 10 1 (actions_of res) \<and>
     states_of res ! 0 = replicate 10 [0, 0]"
  using simulate_shapes [OF main_gains main_shapes, of 10 1000 "Some [0, 0]" 0]
  by (simp add: initial_state_def)

text \<open>C3 as stated fails: with \<open>T = 3\<close> and two trials of the scalar system the state array
  has shape \<open>(3, 2, 1)\<close>, not \<open>(T + 1, 2, 1)\<close>; so has the belief array.\<close>

theorem simulate_shape_counterexample:
  "map_option (\<lambda>res. shape3 (states_of res)) (simulate demo_lib demo_system 0 2 3 None True)
     = Some (3, 2, 1) \<and>
   map_option (\<lambda>res. shape3 (states_of res)) (simulate demo_lib demo_system 0 2 3 None True)
     \<noteq> Some (3 + 1, 2, 1) \<and>
   map_option (\<lambda>res. shape3 (beliefs_of res)) (simulate demo_lib demo_system 0 2 3 None True)
     = Some (3, 2, 1)"
  by code_simp

section \<open>The observations returned by \<open>simulate\<close>\<close>

text \<open>
  C5 (the code at a failing input). With \<open>T = 3\<close> the scan makes two steps and computes an
  observation in each, yet the observation array \<open>simulate\<close> returns has the single row of
  step 0, \<open>C x0 + V eta[0]\<close> for each trial: shape \<open>(1, 2, 1)\<close> beside states of shape
  \<open>(3, 2, 1)\<close>. The return statement stacks \<open>[x0, x]\<close> and \<open>[xhat0, x_hat]\<close> but leaves the
  scanned \<open>y\<close> out of the third \<open>vstack\<close>.
\<close>

theorem observations_only_step0:
  "map_option observations_of (simulate demo_lib demo_system 0 2 3 None True) = Some [[[3], [7]]] \<and>
   map_option (\<lambda>res. shape3 (observations_of res)) (simulate demo_lib demo_system 0 2 3 None True)
     = Some (1, 2, 1) \<and>
   map_option (\<lambda>res. shape3 (states_of res)) (simulate demo_lib demo_system 0 2 3 None True)
     = Some (3, 2, 1)"
  by code_simp

text \<open>The same for every system of consistent shapes: one row of observations, whatever the
  horizon.\<close>

lemma observations_single_row:
  assumes "L lb (actor self) T = Some Lg" and "K lb (actor self) T = Some Kg"
    and "sim_shapes self Lg Kg nx nu nb" and "0 < n" and "0 < T"
    and "length (initial_state self x0) = nx"
  shows "\<exists>res. simulate lb self rng_key n T x0 True = Some res \<and>
           is_arr3 1 n nx (observations_of res)"
proof -
  from simulate_ok [OF assms, of rng_key]
  obtain x x_hat y u where
    "simulate lb self rng_key n T x0 True = Some (All_arrays x x_hat y u)" "is_arr3 1 n nx y"
    by blast
  then show ?thesis by simp
qed

section \<open>An initial state of the wrong length\<close>

lemma loop_state_mismatch:
  assumes "ncols (A (dynamics self)) \<noteq> length x"
  shows "loop self Lg Kg epsilon eta (x, x_hat) t = None"
proof -
  have "matvec (A (dynamics self)) x = None" using assms by (simp add: matvec_def)
  then show ?thesis by (cases "matvec (mneg Lg) x_hat") (simp_all add: loop_def)
qed

lemma simulate_trial_state_mismatch:
  assumes "ncols (A (dynamics self)) \<noteq> length v"
  shows "simulate_trial lb self Lg Kg key T (Some v) xhat0 = None"
  using loop_state_mismatch [OF assms] by (simp add: simulate_trial_def scan_def Let_def)

text \<open>
  C8 (as amended). For a plant whose \<open>A\<close> is square, every call of \<open>simulate\<close> with at least
  one trial and an initial state whose length is not the state dimension
  \<open>dynamics.A.shape[0]\<close> fails, whatever the horizon, the key and \<open>return_all\<close>: the product
  \<open>A @ x\<close> cannot be formed, and the array library raises when the body of the scan is
  traced. \<open>simulate\<close> never compares the initial state with the state dimension, and the
  repository has no exception class for the mismatch; the failure is the shape error of the
  product, the value \<open>None\<close>.
\<close>

theorem simulate_initial_state_mismatch:
  assumes square: "ncols (A (dynamics self)) = nrows (A (dynamics self))"
    and mismatch: "length v \<noteq> xdim self" and n: "0 < n"
  shows "matvec (A (dynamics self)) v = None \<and>
         simulate lb self rng_key n T (Some v) return_all = None"
proof -
  have ne: "ncols (A (dynamics self)) \<noteq> length v" using square mismatch by (simp add: xdim_def)
  obtain key keys where keys: "split_keys lb rng_key n = key # keys"
    using n by (cases "split_keys lb rng_key n") (auto simp: split_keys_def)
  have "map_raising (\<lambda>key. simulate_trial lb self Lg Kg key T (Some v) None)
          (split_keys lb rng_key n) = None" for Lg Kg
    by (simp add: keys simulate_trial_state_mismatch [OF ne])
  then have "simulate lb self rng_key n T (Some v) return_all = None"
    by (cases "L lb (actor self) T"; cases "K lb (actor self) T") (simp_all add: simulate_def)
  moreover have "matvec (A (dynamics self)) v = None" using ne by (simp add: matvec_def)
  ultimately show ?thesis by simp
qed

theorem simulate_initial_state_mismatch_witness:
  "ncols (A (dynamics demo_system)) = nrows (A (dynamics demo_system)) \<and>
   length [1, 2 :: rat] \<noteq> xdim demo_system \<and> (0::nat) < 2 \<and>
   matvec (A (dynamics demo_system)) [1, 2] = None \<and>
   simulate demo_lib demo_system 0 2 3 (Some [1, 2]) True = None"
  using simulate_initial_state_mismatch [of demo_system "[1, 2]" 2 demo_lib 0 3 True]
  by (simp add: demo_system_def demo_dynamics_def ncols_def nrows_def xdim_def)

text \<open>C8 as stated fails: nothing checks the initial state against the state dimension. With
  a plant \<open>A\<close> of one row and three columns the state dimension is 1, and \<open>simulate\<close> called
  with an initial state of length 3 does not fail: it returns states of shape \<open>(T, n, 3)\<close>
  whose first row is that initial state.\<close>

theorem initial_state_mismatch_counterexample:
  "xdim wide_system = 1 \<and>
   length [1, 2, 3 :: rat] \<noteq> xdim wide_system \<and>
   simulate wide_lib wide_system 0 2 2 (Some [1, 2, 3]) True \<noteq> None \<and>
   map_option (\<lambda>res. shape3 (states_of res))
     (simulate wide_lib wide_system 0 2 2 (Some [1, 2, 3]) True) = Some (2, 2, 3) \<and>
   map_option (\<lambda>res. states_of res ! 0)
     (simulate wide_lib wide_system 0 2 2 (Some [1, 2, 3]) True) = Some [[1, 2, 3], [1, 2, 3]]"
proof -
  have v: "simulate wide_lib wide_system 0 2 2 (Some [1, 2, 3]) True =
      Some (All_arrays [[[1, 2, 3], [1, 2, 3]], [[6, 6, 6], [8, 8, 8]]]
              [[[0], [0]], [[10 / 3], [16 / 3]]] [[[4, 5, 6], [8, 9, 10]]] [[[0], [0]]])"
    by code_simp
  have d: "xdim wide_system = 1"
    by (simp add: xdim_def wide_system_def wide_dynamics_def nrows_def)
  show ?thesis unfolding v d by (simp add: shape3_def nrows_def ncols_def)
qed

section \<open>Determinism of \<open>simulate\<close>\<close>

lemma normal_cong:
  "random_normal lb1 key = random_normal lb2 key \<Longrightarrow> normal lb1 key shp = normal lb2 key shp"
  by (simp add: normal_def)

lemma simulate_trial_cong:
  assumes split: "random_split lb1 = random_split lb2"
    and n1: "random_normal lb1 (random_split lb1 key 2 1) = random_normal lb2 (random_split lb1 key 2 1)"
    and n2: "random_normal lb1 (random_split lb1 (random_split lb1 key 2 0) 2 1)
             = random_normal lb2 (random_split lb1 (random_split lb1 key 2 0) 2 1)"
  shows "simulate_trial lb1 self Lg Kg key T x0 xhat0 = simulate_trial lb2 self Lg Kg key T x0 xhat0"
  using normal_cong [OF n1] normal_cong [OF n2]
  by (simp add: simulate_trial_def Let_def split [symmetric])

lemma map_raising_cong:
  "(\<And>k. k \<in> set ks \<Longrightarrow> g k = h k) \<Longrightarrow> map_raising g ks = map_raising h ks"
  by (induction ks) simp_all

text \<open>
  C7. \<open>simulate\<close> is a function of its explicit inputs: two calls with the same key, the same
  \<open>n\<close>, the same \<open>T\<close> and the same initial state return the same value (or both fail). It
  reads no state beside them, and of the random source it consumes only what
  \<open>random.normal\<close> yields for the keys split off the supplied key: two libraries with the
  same gain routines and the same key splitting, whose normal samples agree on those keys,
  give the same result, however they differ elsewhere.
\<close>

theorem simulate_deterministic:
  assumes inputs: "rng_key1 = rng_key2" "n1 = n2" "T1 = T2" "x01 = x02"
    and gains: "control_law lb1 = control_law lb2" "kalman_gain lb1 = kalman_gain lb2"
    and split: "random_split lb1 = random_split lb2"
    and noise: "\<forall>key \<in> set (noise_keys lb1 rng_key1 n1). random_normal lb1 key = random_normal lb2 key"
  shows "simulate lb1 self rng_key1 n1 T1 x01 return_all = simulate lb2 self rng_key2 n2 T2 x02 return_all"
proof -
  have LK: "L lb1 (actor self) T1 = L lb2 (actor self) T1" "K lb1 (actor self) T1 = K lb2 (actor self) T1"
    using gains by (simp_all add: L_def K_def)
  have keys: "split_keys lb1 rng_key1 n1 = split_keys lb2 rng_key1 n1"
    using split by (simp add: split_keys_def)
  have "simulate_trial lb1 self Lg Kg key T1 x01 None = simulate_trial lb2 self Lg Kg key T1 x01 None"
    if "key \<in> set (split_keys lb1 rng_key1 n1)" for key Lg Kg
    using that noise by (intro simulate_trial_cong split) (auto simp: noise_keys_def)
  then have "map_raising (\<lambda>key. simulate_trial lb1 self Lg Kg key T1 x01 None) (split_keys lb1 rng_key1 n1)
      = map_raising (\<lambda>key. simulate_trial lb2 self Lg Kg key T1 x01 None) (split_keys lb1 rng_key1 n1)"
    for Lg Kg
    by (intro map_raising_cong) blast
  then show ?thesis
    using inputs LK keys by (simp add: simulate_def)
qed

theorem simulate_deterministic_witness:
  "noise_keys demo_lib 0 2 = [4, 8, 6, 12] \<and>
   random_normal demo_lib 5 \<noteq> random_normal demo_lib_other 5 \<and>
   simulate demo_lib demo_system 0 2 3 None True = simulate demo_lib_other demo_system 0 2 3 None True"
proof -
  have keys: "noise_keys demo_lib 0 2 = [4, 8, 6, 12]"
    by (simp add: noise_keys_def split_keys_def demo_lib_def upt_rec numeral_2_eq_2)
  have differ: "random_normal demo_lib 5 \<noteq> random_normal demo_lib_other 5"
  proof
    assume "random_normal demo_lib 5 = random_normal demo_lib_other 5"
    then have "random_normal demo_lib 5 (0, 0) 0 0 = random_normal demo_lib_other 5 (0, 0) 0 0"
      by simp
    then show False by (simp add: demo_lib_other_def demo_lib_def)
  qed
  have agree: "\<forall>key \<in> set (noise_keys demo_lib 0 2). random_normal demo_lib key = random_normal demo_lib_other key"
    unfolding keys by (simp add: demo_lib_other_def)
  have "simulate demo_lib demo_system 0 2 3 None True = simulate demo_lib_other demo_system 0 2 3 None True"
    using agree
    by (intro simulate_deterministic) (simp_all add: demo_lib_other_def)
  with keys differ show ?thesis by simp
qed

section \<open>The gains applied by a simulation step\<close>




section \<open>Arrays given by their entries\<close>

lemma map_by_index: "map g xs = map (\<lambda>i. g (xs ! i)) [0..<length xs]"
  by (rule nth_equalityI) simp_all

lemma is_mat_tab [simp]: "is_mat r c (tab r c g)"
  by (simp add: is_mat_def tab_def list_all_iff)

lemma tab_nth [simp]: "i < r \<Longrightarrow> j < c \<Longrightarrow> tab r c g ! i ! j = g i j"
  by (simp add: tab_def)

lemma tab_row [simp]: "i < r \<Longrightarrow> tab r c g ! i = map (g i) [0..<c]"
  by (simp add: tab_def)

lemma length_tab [simp]: "length (tab r c g) = r"
  by (simp add: tab_def)

lemma tab_cong: "(\<And>i j. i < r \<Longrightarrow> j < c \<Longrightarrow> g i j = h i j) \<Longrightarrow> tab r c g = tab r c h"
  by (simp add: tab_def)

lemma is_mat_as_tab:
  assumes "is_mat r c M"
  shows "M = tab r c (\<lambda>i j. M ! i ! j)"
proof (rule nth_equalityI)
  show "length M = length (tab r c (\<lambda>i j. M ! i ! j))" using assms by (simp add: is_mat_def)
next
  fix i assume i: "i < length M"
  then have ir: "i < r" using assms by (simp add: is_mat_def)
  have "length (M ! i) = c" using is_mat_row [OF assms ir] .
  then have "M ! i = map (\<lambda>j. M ! i ! j) [0..<c]" using map_nth [of "M ! i"] by simp
  then show "M ! i = tab r c (\<lambda>i j. M ! i ! j) ! i" using ir by simp
qed

lemma mat_eqI:
  assumes "is_mat r c M" "is_mat r c N" "\<And>i j. i < r \<Longrightarrow> j < c \<Longrightarrow> M ! i ! j = N ! i ! j"
  shows "M = N"
proof -
  have "M = tab r c (\<lambda>i j. M ! i ! j)" by (rule is_mat_as_tab [OF assms(1)])
  also have "\<dots> = tab r c (\<lambda>i j. N ! i ! j)" by (rule tab_cong) (rule assms(3))
  also have "\<dots> = N" by (rule is_mat_as_tab [OF assms(2), symmetric])
  finally show ?thesis .
qed

lemma ncols_tab [simp]: "0 < r \<Longrightarrow> ncols (tab r c g) = c"
  by (rule is_mat_ncols [OF is_mat_tab])

lemma nrows_tab [simp]: "nrows (tab r c g) = r"
  by (simp add: nrows_def)

section \<open>Transpose, products, sums, slices\<close>

lemma mtransp_tab:
  assumes "is_mat r c M" "0 < r"
  shows "mtransp M = tab c r (\<lambda>i j. M ! j ! i)"
  using assms by (simp add: mtransp_def tab_def is_mat_ncols map_by_index [of _ M] is_mat_length)

lemma dot_sum: "length u = k \<Longrightarrow> dot u v = (\<Sum>l<k. u ! l * v ! l)"
  by (simp add: dot_def interv_sum_list_conv_sum_set_nat atLeast0LessThan)

lemma mmul_tab:
  assumes M: "is_mat r k M" and N: "is_mat k c N" and k: "0 < k"
  shows "mmul M N = tab r c (\<lambda>i j. \<Sum>l<k. M ! i ! l * N ! l ! j)"
proof -
  have tN: "mtransp N = tab c k (\<lambda>j l. N ! l ! j)" by (rule mtransp_tab [OF N k])
  have "mmul M N = map (\<lambda>row. map (\<lambda>j. dot row (map (\<lambda>l. N ! l ! j) [0..<k])) [0..<c]) M"
    by (simp add: mmul_def tN tab_def comp_def)
  also have "\<dots> = map (\<lambda>i. map (\<lambda>j. dot (M ! i) (map (\<lambda>l. N ! l ! j) [0..<k])) [0..<c]) [0..<r]"
    by (simp add: map_by_index [of _ M] is_mat_length [OF M])
  also have "\<dots> = tab r c (\<lambda>i j. \<Sum>l<k. M ! i ! l * N ! l ! j)"
    unfolding tab_def
    by (intro map_cong refl) (simp add: dot_sum [OF is_mat_row [OF M]])
  finally show ?thesis .
qed


lemma is_mat_mtransp: "is_mat r c M \<Longrightarrow> 0 < r \<Longrightarrow> is_mat c r (mtransp M)"
  by (simp add: mtransp_tab)

lemma matmul_ok:
  assumes "is_mat r k M" "is_mat k c N" "0 < r" "0 < k"
  shows "matmul M N = Some (mmul M N)" and "is_mat r c (mmul M N)"
  using assms by (simp_all add: matmul_def is_mat_ncols is_mat_nrows mmul_tab)

lemma bidx_same: "i < a \<Longrightarrow> bidx a i = i"
  by (auto simp: bidx_def)

lemma bcast2_same:
  assumes M: "is_mat r c M" and N: "is_mat r c N" and r: "0 < r"
  shows "bcast2 g M N = Some (tab r c (\<lambda>i j. g (M ! i ! j) (N ! i ! j)))"
proof -
  have sh: "nrows M = r" "nrows N = r" "ncols M = c" "ncols N = c"
    using M N r by (simp_all add: is_mat_nrows is_mat_ncols)
  show ?thesis
    by (simp add: bcast2_def sh bcompat_def blen_def tab_def bidx_same cong: map_cong)
qed

lemma madd_ok:
  assumes "is_mat r c M" "is_mat r c N" "0 < r"
  shows "madd M N = Some (tab r c (\<lambda>i j. M ! i ! j + N ! i ! j))"
  using bcast2_same [OF assms] by (simp add: madd_def)

lemma msub_ok:
  assumes "is_mat r c M" "is_mat r c N" "0 < r"
  shows "msub M N = Some (tab r c (\<lambda>i j. M ! i ! j - N ! i ! j))"
  using bcast2_same [OF assms] by (simp add: msub_def)

lemma hstack_ok:
  assumes "is_mat r c1 M" "is_mat r c2 N"
  shows "hstack M N = Some (map2 (@) M N)" and "is_mat r (c1 + c2) (map2 (@) M N)"
  using assms
  by (auto simp: hstack_def is_mat_def nrows_def list_all_iff dest!: set_zip_leftD set_zip_rightD
      elim!: in_set_zipE)

lemma vstack_ok:
  assumes "is_mat r1 c M" "is_mat r2 c N" "0 < r1" "0 < r2"
  shows "vstack M N = Some (M @ N)" and "is_mat (r1 + r2) c (M @ N)"
  using assms by (simp_all add: vstack_def is_mat_ncols) (simp add: is_mat_def)

lemma is_mat_cols_upto: "is_mat r c M \<Longrightarrow> is_mat r (min d c) (cols_upto d M)"
  by (auto simp: is_mat_def cols_upto_def list_all_iff)

lemma is_mat_rows_upto: "is_mat r c M \<Longrightarrow> is_mat (min d r) c (rows_upto d M)"
  by (auto simp: is_mat_def rows_upto_def list_all_iff min.commute dest: in_set_takeD)

lemma is_mat_block_upto: "is_mat r c M \<Longrightarrow> is_mat (min d r) (min d c) (block_upto d M)"
  by (auto simp: is_mat_def block_upto_def list_all_iff min.commute dest: in_set_takeD)

lemma inv_ok:
  assumes "is_mat d d M" "0 < d"
  shows "jnp_linalg_inv lb M = Some (tab d d (linalg_inv lb M))"
  using assms by (simp add: jnp_linalg_inv_def is_mat_nrows is_mat_ncols tab_def)

lemma is_mat_zeros: "is_mat r c (zeros r c)"
  by (simp add: is_mat_def zeros_def list_all_iff)

lemma is_mat_zeros_like: "is_mat r c M \<Longrightarrow> is_mat r c (zeros_like M)"
  by (auto simp: is_mat_def zeros_like_def list_all_iff)

section \<open>The matrices of the filter\<close>

lemma F_matrix_ok:
  assumes sh: "filter_shapes self Lg Kg nx nu nb no"
  shows "\<exists>Fm. F_matrix self Lg Kg = Some Fm \<and> is_mat (nx + nb) (nx + nb) Fm"
proof -
  from sh have pos: "0 < nx" "0 < nu" "0 < nb" "0 < no"
    and mA: "is_mat nx nx (A (dynamics self))" and mB: "is_mat nx nu (B (dynamics self))"
    and mC: "is_mat no nx (C (dynamics self))"
    and aA: "is_mat nb nb (A (actor self))" and aB: "is_mat nb nu (B (actor self))"
    and aC: "is_mat no nb (C (actor self))"
    and mL: "is_mat nu nb Lg" and mK: "is_mat nb no Kg"
    by (simp_all add: filter_shapes_def)
  note nbl = matmul_ok [OF is_mat_mneg [OF mB] mL pos(1) pos(2)]
  note top = hstack_ok [OF mA nbl(2)]
  note kc = matmul_ok [OF mK mC pos(3) pos(4)]
  note kca = matmul_ok [OF kc(2) mA pos(3) pos(1)]
  note bl = matmul_ok [OF aB mL pos(3) pos(2)]
  note a_bl = msub_ok [OF aA bl(2) pos(3)]
  note kc' = matmul_ok [OF mK aC pos(3) pos(4)]
  note kca' = matmul_ok [OF kc'(2) aA pos(3) pos(3)]
  have m1: "is_mat nb nb (tab nb nb (\<lambda>i j. A (actor self) ! i ! j - mmul (B (actor self)) Lg ! i ! j))"
    by simp
  note blk = msub_ok [OF m1 kca'(2) pos(3)]
  have m2: "is_mat nb nb (tab nb nb (\<lambda>i j. tab nb nb (\<lambda>i j. A (actor self) ! i ! j
      - mmul (B (actor self)) Lg ! i ! j) ! i ! j - mmul (mmul Kg (C (actor self))) (A (actor self)) ! i ! j))"
    by simp
  note bot = hstack_ok [OF kca(2) m2]
  note all = vstack_ok [OF top(2) bot(2) pos(1) pos(3)]
  show ?thesis
    unfolding F_matrix_def
    using all(2) by (simp add: nbl(1) top(1) kc(1) kca(1) bl(1) a_bl kc'(1) kca'(1) blk bot(1) all(1))
qed

lemma G_matrix_ok:
  assumes sh: "filter_shapes self Lg Kg nx nu nb no"
  shows "\<exists>Gm. G_matrix self Kg = Some Gm \<and> is_mat (nx + nb) (nx + no) Gm"
proof -
  from sh have pos: "0 < nx" "0 < nu" "0 < nb" "0 < no"
    and mC: "is_mat no nx (C (dynamics self))" and mV: "is_mat nx nx (V (dynamics self))"
    and mW: "is_mat no no (W (dynamics self))" and mK: "is_mat nb no Kg"
    by (simp_all add: filter_shapes_def)
  note z = is_mat_zeros_like [OF is_mat_mtransp [OF mC pos(4)]]
  note top = hstack_ok [OF mV z]
  note kc = matmul_ok [OF mK mC pos(3) pos(4)]
  note kcv = matmul_ok [OF kc(2) mV pos(3) pos(1)]
  note kw = matmul_ok [OF mK mW pos(3) pos(4)]
  note bot = hstack_ok [OF kcv(2) kw(2)]
  note all = vstack_ok [OF top(2) bot(2) pos(1) pos(3)]
  show ?thesis
    unfolding G_matrix_def
    using all(2) by (simp add: top(1) kc(1) kcv(1) kw(1) bot(1) all(1))
qed


lemma is_mat_padd: "is_mat r c M \<Longrightarrow> 0 < r \<Longrightarrow> is_mat r c (padd M N)"
  by (simp add: padd_def is_mat_nrows is_mat_ncols)

lemma is_mat_psub: "is_mat r c M \<Longrightarrow> 0 < r \<Longrightarrow> is_mat r c (psub M N)"
  by (simp add: psub_def is_mat_nrows is_mat_ncols)

lemma madd_padd:
  assumes "is_mat r c M" "is_mat r c N" "0 < r"
  shows "madd M N = Some (padd M N)"
  using madd_ok [OF assms] assms by (simp add: padd_def is_mat_nrows is_mat_ncols)

lemma msub_psub:
  assumes "is_mat r c M" "is_mat r c N" "0 < r"
  shows "msub M N = Some (psub M N)"
  using msub_ok [OF assms] assms by (simp add: psub_def is_mat_nrows is_mat_ncols)

lemma inv_inv_of:
  assumes "is_mat d d M" "0 < d"
  shows "jnp_linalg_inv lb M = Some (inv_of lb M)" and "is_mat d d (inv_of lb M)"
  using inv_ok [OF assms] assms by (simp_all add: inv_of_def is_mat_nrows is_mat_ncols)

section \<open>The filtering step\<close>

lemma f_step_eq:
  fixes lb :: "('a::comm_ring_1, 'k) lib"
  assumes F: "is_mat m m Fm" and G: "is_mat m p Gm" and mu: "is_mat n m mu"
    and S: "is_mat m m Sig" and xt: "is_mat n d xt"
    and d: "0 < d" "d \<le> m" and n: "0 < n" and p: "0 < p"
  defines "iv \<equiv> inv_of lb (block_upto d Sig)"
  defines "fs \<equiv> mmul Fm Sig"
  defines "mu' \<equiv> padd (mmul mu (mtransp Fm))
                     (mmul (mmul (psub xt (cols_upto d mu)) (mtransp iv)) (mtransp (cols_upto d fs)))"
  defines "Sig' \<equiv> psub (padd (mmul fs (mtransp Fm)) (mmul Gm (mtransp Gm)))
                      (mmul (mmul (cols_upto d fs) iv) (rows_upto d (mmul Sig (mtransp Fm))))"
  shows "f_step lb Fm Gm d (mu, Sig) xt = Some ((mu', Sig'), (mu', Sig'))"
    and "is_mat n m mu'" and "is_mat m m Sig'"
proof -
  have m: "0 < m" using d by simp
  have md: "min d m = d" using d by simp
  note Ft = is_mat_mtransp [OF F m]
  note Gt = is_mat_mtransp [OF G m]
  note mu_ft = matmul_ok [OF mu Ft n m]
  have mud: "is_mat n d (cols_upto d mu)" using is_mat_cols_upto [OF mu, of d] md by simp
  note innov = msub_psub [OF xt mud n]
  have innov_m: "is_mat n d (psub xt (cols_upto d mu))" by (rule is_mat_psub [OF xt n])
  have blk: "is_mat d d (block_upto d Sig)" using is_mat_block_upto [OF S, of d] md by simp
  note iv = inv_inv_of [OF blk d(1), of lb, folded iv_def]
  note ivt = is_mat_mtransp [OF iv(2) d(1)]
  note t1 = matmul_ok [OF innov_m ivt n d(1)]
  note fs = matmul_ok [OF F S m m, folded fs_def]
  have fsd: "is_mat m d (cols_upto d fs)" using is_mat_cols_upto [OF fs(2), of d] md by simp
  note fsdt = is_mat_mtransp [OF fsd m]
  note t2 = matmul_ok [OF t1(2) fsdt n d(1)]
  note mu'1 = madd_padd [OF mu_ft(2) t2(2) n, folded mu'_def]
  note fsft = matmul_ok [OF fs(2) Ft m m]
  note ggt = matmul_ok [OF G Gt m p]
  note pred = madd_padd [OF fsft(2) ggt(2) m]
  have pred_m: "is_mat m m (padd (mmul fs (mtransp Fm)) (mmul Gm (mtransp Gm)))"
    by (rule is_mat_padd [OF fsft(2) m])
  note t3 = matmul_ok [OF fsd iv(2) m d(1)]
  note sft = matmul_ok [OF S Ft m m]
  have sftd: "is_mat d m (rows_upto d (mmul Sig (mtransp Fm)))"
    using is_mat_rows_upto [OF sft(2), of d] md by simp
  note t4 = matmul_ok [OF t3(2) sftd m d(1)]
  note Sig'1 = msub_psub [OF pred_m t4(2) m, folded Sig'_def]
  show "f_step lb Fm Gm d (mu, Sig) xt = Some ((mu', Sig'), (mu', Sig'))"
    by (simp add: f_step_def mu_ft(1) innov iv(1) t1(1) fs(1) t2(1) mu'1 fsft(1) ggt(1) pred
        t3(1) sft(1) t4(1) Sig'1)
  show "is_mat n m mu'" unfolding mu'_def by (rule is_mat_padd [OF mu_ft(2) n])
  show "is_mat m m Sig'" unfolding Sig'_def by (rule is_mat_psub [OF pred_m m])
qed

lemma shape3_arr3:
  assumes "is_arr3 T n d x" "0 < T" "0 < n"
  shows "shape3 x = (T, n, d)"
proof -
  obtain xt rest where x: "x = xt # rest" using assms by (cases x) (auto simp: is_arr3_def)
  then have "is_mat n d xt" using assms by (simp add: is_arr3_def)
  then show ?thesis using assms x by (simp add: shape3_def is_mat_nrows is_mat_ncols is_arr3_def)
qed

lemma conditional_moments_ok:
  assumes Lg: "L lb (actor self) T = Some Lg" and Kg: "K lb (actor self) T = Some Kg"
    and sh: "filter_shapes self Lg Kg nx nu nb no"
    and x: "is_arr3 T n d x" and T: "0 < T" and n: "0 < n" and d: "0 < d" "d \<le> nx + nb"
    and mu0: "case mu0 of None \<Rightarrow> True | Some m0 \<Rightarrow> is_mat n (nx + nb) m0"
  shows "\<exists>mus Sigs. conditional_moments lb self x mu0 = Some (mus, Sigs) \<and>
           is_arr3 T n (nx + nb) mus \<and> is_arr3 T (nx + nb) (nx + nb) Sigs"
proof -
  define m where "m = nx + nb"
  obtain Fm where Fm: "F_matrix self Lg Kg = Some Fm" "is_mat m m Fm"
    using F_matrix_ok [OF sh] by (auto simp: m_def)
  obtain Gm where Gm: "G_matrix self Kg = Some Gm" "is_mat m (nx + no) Gm"
    using G_matrix_ok [OF sh] by (auto simp: m_def)
  from sh have pos: "0 < nx" "0 < no"
    and mA: "is_mat nx nx (A (dynamics self))" and aA: "is_mat nb nb (A (actor self))"
    by (simp_all add: filter_shapes_def)
  have mpos: "0 < m" "0 < nx + no" using pos by (simp_all add: m_def)
  define mu where "mu = (case mu0 of None \<Rightarrow> zeros n (nrows (A (dynamics self)) + nrows (A (actor self)))
      | Some m0 \<Rightarrow> m0)"
  have mu: "is_mat n m mu"
    using mu0 is_mat_nrows [OF mA] is_mat_nrows [OF aA]
    by (cases mu0) (simp_all add: mu_def m_def is_mat_zeros)
  note ggt = matmul_ok [OF Gm(2) is_mat_mtransp [OF Gm(2) mpos(1)] mpos(1) mpos(2)]
  have shp: "shape3 x = (T, n, d)" by (rule shape3_arr3 [OF x T n])
  define I :: "'a list list \<times> 'a list list \<Rightarrow> bool" where
    "I = (\<lambda>c. is_mat n m (fst c) \<and> is_mat m m (snd c))"
  define x_tr where "x_tr = (case x of [] \<Rightarrow> [] | xt # _ \<Rightarrow> xt)"
  have xs: "is_mat n d xt" if "xt \<in> insert x_tr (set x)" for xt
    using that x T by (cases x) (auto simp: x_tr_def is_arr3_def list_all_iff)
  have step: "\<exists>c' y. f_step lb Fm Gm d c xt = Some (c', y) \<and> I c' \<and> I y"
    if "I c" "xt \<in> insert x_tr (set x)" for c xt
  proof -
    obtain mu1 S1 where c: "c = (mu1, S1)" by (cases c)
    with that have "is_mat n m mu1" "is_mat m m S1" by (simp_all add: I_def)
    from f_step_eq [OF Fm(2) Gm(2) this xs [OF that(2)] d(1) _ n mpos(2), of lb] d(2)
    show ?thesis by (simp add: c I_def m_def)
  qed
  have "\<exists>cf out. scan same_moments (f_step lb Fm Gm d) (mu, mmul Gm (mtransp Gm)) x x_tr = Some (cf, out)
          \<and> I cf \<and> length out = length x \<and> list_all I out"
  proof (rule scan_invariant [where I = I])
    show "I (mu, mmul Gm (mtransp Gm))" using mu ggt(2) by (simp add: I_def)
    show "same_moments c c'" if "I c" "I c'" for c c'
      using that n mpos by (auto simp: I_def same_moments_def is_mat_nrows is_mat_ncols)
  qed (use step in blast)
  then obtain cf out where sc: "scan same_moments (f_step lb Fm Gm d) (mu, mmul Gm (mtransp Gm)) x x_tr
      = Some (cf, out)" and lout: "length out = T" and Iout: "list_all I out"
    using x by (auto simp: is_arr3_def)
  have "conditional_moments lb self x mu0 = Some (map fst out, map snd out)"
    using sc by (simp add: conditional_moments_def shp Lg Kg Fm(1) Gm(1) ggt(1) mu_def x_tr_def)
  moreover have "is_arr3 T n m (map fst out)" "is_arr3 T m m (map snd out)"
    using lout Iout by (auto simp: is_arr3_def I_def list_all_iff)
  ultimately show ?thesis by (simp add: m_def)
qed

lemma demo_gains:
  "L demo_lib (actor noiseless_system) T = Some [[1 / 2]]"
  "K demo_lib (actor noiseless_system) T = Some [[1 / 3]]"
  "L demo_lib (actor demo_system) T = Some [[1 / 2]]"
  "K demo_lib (actor demo_system) T = Some [[1 / 3]]"
  by (simp_all add: L_def K_def demo_lib_def noiseless_system_def noiseless_actor_def
      demo_system_def demo_actor_def matmul_def ncols_def nrows_def mtransp_def)

lemma demo_filter_shapes:
  "filter_shapes noiseless_system [[1 / 2]] [[1 / 3]] 1 1 1 1"
  "filter_shapes demo_system [[1 / 2]] [[1 / 3]] 1 1 1 1"
  by (simp_all add: filter_shapes_def noiseless_system_def noiseless_actor_def
      noiseless_dynamics_def demo_system_def demo_actor_def demo_dynamics_def is_mat_def)

lemma demo_trajectory_shape: "is_arr3 3 2 1 demo_trajectory"
  by (simp add: is_arr3_def is_mat_def demo_trajectory_def)

section \<open>No test for a singular observed block\<close>

text \<open>
  C6 (as amended). \<open>conditional_moments\<close> makes no test of the observed block. For every
  inverse routine, every system and gains of consistent shapes (\<open>filter_shapes\<close>) and every
  trajectory of shape \<open>(T, n, d)\<close> with \<open>T, n \<ge> 1\<close> and \<open>1 \<le> d \<le> state-dim + belief-dim\<close>, it
  returns \<open>T\<close> joint means of shape \<open>(n, m)\<close> and \<open>T\<close> joint covariances of shape \<open>(m, m)\<close>,
  \<open>m = state-dim + belief-dim\<close>, whether or not \<open>Sigma[:d, :d]\<close> is singular at some step: it
  hands the block to \<open>jnp.linalg.inv\<close> and computes on with what that returns. Only
  incompatible shapes make it fail.
\<close>

theorem conditional_moments_total:
  assumes "L lb (actor self) T = Some Lg" and "K lb (actor self) T = Some Kg"
    and "filter_shapes self Lg Kg nx nu nb no"
    and "is_arr3 T n d x" and "0 < T" and "0 < n" and "0 < d" and "d \<le> nx + nb"
  shows "\<exists>mus Sigs. conditional_moments lb self x None = Some (mus, Sigs) \<and>
           is_arr3 T n (nx + nb) mus \<and> is_arr3 T (nx + nb) (nx + nb) Sigs"
  using conditional_moments_ok [OF assms, of None] by simp

theorem conditional_moments_total_witness:
  "\<exists>mus Sigs. conditional_moments demo_lib noiseless_system demo_trajectory None = Some (mus, Sigs) \<and>
     is_arr3 3 2 2 mus \<and> is_arr3 3 2 2 Sigs"
  using conditional_moments_total [OF demo_gains(1) demo_gains(2) demo_filter_shapes(1)
      demo_trajectory_shape]
  by (simp add: numeral_2_eq_2)

text \<open>C6 as stated fails: with \<open>V = W = 0\<close> the initial covariance \<open>G G\<^sup>T\<close> is zero, its observed
  block is the singular \<open>[[0]]\<close>, and \<open>conditional_moments\<close> returns arrays instead of
  raising.\<close>

theorem singular_block_counterexample:
  "map_option (\<lambda>Gm. block_upto 1 (mmul Gm (mtransp Gm))) (G_matrix noiseless_system [[1 / 3]])
     = Some [[0]] \<and>
   conditional_moments demo_lib noiseless_system short_trajectory None \<noteq> None"
proof -
  have g: "map_option (\<lambda>Gm. block_upto 1 (mmul Gm (mtransp Gm))) (G_matrix noiseless_system [[1 / 3]])
     = Some [[0]]"
    by code_simp
  have v: "conditional_moments demo_lib noiseless_system short_trajectory None
     = Some ([[[0, 0], [0, 0]], [[0, 0], [0, 0]]], [[[0, 0], [0, 0]], [[0, 0], [0, 0]]])"
    by code_simp
  show ?thesis unfolding g v by simp
qed

section \<open>The initial moments of the filter\<close>

lemma matmul_gram: "matmul Gm (mtransp Gm) = Some (mmul Gm (mtransp Gm))"
  by (simp add: matmul_def mtransp_def nrows_def)

text \<open>
  C10. When \<open>mu0\<close> is omitted, \<open>conditional_moments\<close> starts its scan from the zero mean of
  shape \<open>(n, state-dim + belief-dim)\<close>, \<open>n\<close> the number of trials of the trajectory, and the
  covariance \<open>G G\<^sup>T\<close>: its value is that of the scan of \<open>f\<close> from this carry, it equals the
  value of the call that passes the zero mean explicitly, and every entry of that mean is
  zero. The function takes no filter state and returns none, so every call starts so.
\<close>

theorem conditional_moments_initialisation:
  assumes "shape3 x = (T, n, d)"
    and "L lb (actor self) T = Some Lg" and "K lb (actor self) T = Some Kg"
    and "F_matrix self Lg Kg = Some Fm" and "G_matrix self Kg = Some Gm"
  shows "conditional_moments lb self x None =
           map_option (\<lambda>r. (map fst (snd r), map snd (snd r)))
             (scan same_moments (f_step lb Fm Gm d)
                (zeros n (xdim self + bdim self), mmul Gm (mtransp Gm)) x
                (case x of [] \<Rightarrow> [] | xt # _ \<Rightarrow> xt)) \<and>
         conditional_moments lb self x None =
           conditional_moments lb self x (Some (zeros n (xdim self + bdim self))) \<and>
         zeros n (xdim self + bdim self) = tab n (xdim self + bdim self) (\<lambda>i j. 0)"
proof -
  have "conditional_moments lb self x mu0 =
      map_option (\<lambda>r. (map fst (snd r), map snd (snd r)))
        (scan same_moments (f_step lb Fm Gm d)
          ((case mu0 of None \<Rightarrow> zeros n (xdim self + bdim self) | Some m0 \<Rightarrow> m0),
           mmul Gm (mtransp Gm)) x (case x of [] \<Rightarrow> [] | xt # _ \<Rightarrow> xt))" for mu0
    unfolding xdim_def bdim_def using assms
    by (cases "scan same_moments (f_step lb Fm Gm d)
          ((case mu0 of None \<Rightarrow> zeros n (nrows (A (dynamics self)) + nrows (A (actor self)))
            | Some m0 \<Rightarrow> m0),
           mmul Gm (mtransp Gm)) x (case x of [] \<Rightarrow> [] | xt # _ \<Rightarrow> xt)")
      (auto simp: conditional_moments_def matmul_gram)
  from this [of None] this [of "Some (zeros n (xdim self + bdim self))"]
  show ?thesis by (simp add: zeros_def tab_def map_replicate_const)
qed

theorem conditional_moments_initialisation_witness:
  "conditional_moments demo_lib demo_system demo_trajectory None =
     map_option (\<lambda>r. (map fst (snd r), map snd (snd r)))
       (scan same_moments (f_step demo_lib [[1, - (1 / 2)], [1 / 3, 1 / 6]] [[1, 0], [1 / 3, 2 / 3]] 1)
          (zeros 2 (xdim demo_system + bdim demo_system),
           mmul [[1, 0], [1 / 3, 2 / 3]] (mtransp [[1, 0], [1 / 3, 2 / 3]]))
          demo_trajectory [[1], [2]]) \<and>
   conditional_moments demo_lib demo_system demo_trajectory None =
     conditional_moments demo_lib demo_system demo_trajectory
       (Some (zeros 2 (xdim demo_system + bdim demo_system))) \<and>
   zeros 2 (xdim demo_system + bdim demo_system) = [[0, 0], [0, 0 :: rat]]"
proof -
  have sh: "shape3 demo_trajectory = (3, 2, 1)" by code_simp
  have Fm: "F_matrix demo_system [[1 / 2]] [[1 / 3]] = Some [[1, - (1 / 2)], [1 / 3, 1 / 6]]"
    by code_simp
  have Gm: "G_matrix demo_system [[1 / 3]] = Some [[1, 0], [1 / 3, 2 / 3]]"
    by code_simp
  have tr: "(case demo_trajectory of [] \<Rightarrow> [] | xt # _ \<Rightarrow> xt) = [[1], [2]]"
    by (simp add: demo_trajectory_def)
  have z: "tab 2 (xdim demo_system + bdim demo_system) (\<lambda>i j. 0) = [[0, 0], [0, 0 :: rat]]"
    by code_simp
  note r = conditional_moments_initialisation [OF sh demo_gains(3) demo_gains(4) Fm Gm,
      unfolded tr]
  show ?thesis
    by (intro conjI) (rule r [THEN conjunct1], rule r [THEN conjunct2, THEN conjunct1],
        rule trans [OF r [THEN conjunct2, THEN conjunct2] z])
qed

section \<open>The value of \<open>log_likelihood\<close>\<close>

lemma conditional_distribution_eq:
  assumes cm: "conditional_moments lb self x None = Some (mus, Sigs)"
    and mus: "is_arr3 T n m mus" and Sigs: "length Sigs = T"
    and x: "is_arr3 T n d x" and T: "0 < T" and n: "0 < n"
  shows "\<exists>mv. conditional_distribution lb self x = Some mv \<and>
           length (loc mv) = n \<and> length (covariance_matrix mv) = T \<and>
           (\<forall>i<n. length (loc mv ! i) = T \<and> (\<forall>t<T. loc mv ! i ! t = take d (mus ! t ! i))) \<and>
           (\<forall>t<T. covariance_matrix mv ! t = block_upto d (Sigs ! t))"
proof -
  define mv where "mv = \<lparr>loc = mtransp (map (cols_upto d) mus),
                          covariance_matrix = map (block_upto d) Sigs\<rparr>"
  have cd: "conditional_distribution lb self x = Some mv"
    by (simp add: conditional_distribution_def shape3_arr3 [OF x T n] cm mv_def)
  have lm: "length mus = T" and rows: "\<And>t. t < T \<Longrightarrow> length (mus ! t) = n"
    using mus by (auto simp: is_arr3_def is_mat_def list_all_length)
  have ne: "map (cols_upto d) mus \<noteq> []" using lm T by auto
  have hd: "length (hd (map (cols_upto d) mus)) = n"
    using rows [of 0] T lm ne by (simp add: hd_conv_nth cols_upto_def)
  have len: "length (loc mv) = n" using mtransp_length [OF ne] hd by (simp add: mv_def)
  have row: "loc mv ! i = map (\<lambda>M. M ! i) (map (cols_upto d) mus)" if "i < n" for i
    using mtransp_nth [OF ne, of i] hd that by (simp add: mv_def)
  have "length (loc mv ! i) = T \<and> (\<forall>t<T. loc mv ! i ! t = take d (mus ! t ! i))" if "i < n" for i
    using row [OF that] lm rows that by (simp add: cols_upto_def)
  then show ?thesis using cd len Sigs by (auto simp: mv_def)
qed

text \<open>
  C2 (as amended). For every full trajectory of shape \<open>(T + 1, n, d)\<close>, \<open>T \<ge> 1\<close>, on a system
  of consistent shapes, \<open>log_likelihood\<close> returns an array of shape \<open>(n, T)\<close>: its entry
  \<open>(i, t)\<close> is the log-density of the observed step \<open>t + 1\<close> of trial \<open>i\<close> under the Gaussian
  whose mean is \<open>mu[t][i, :d]\<close> and whose covariance is \<open>Sigma[t][:d, :d]\<close>, the moments
  \<open>conditional_moments\<close> computes from the steps \<open>0 .. T - 1\<close> of the data. The entries are
  not summed over time.
\<close>

theorem log_likelihood_per_step:
  assumes "L lb (actor self) T = Some Lg" and "K lb (actor self) T = Some Kg"
    and "filter_shapes self Lg Kg nx nu nb no"
    and "is_arr3 (T + 1) n d x" and "0 < T" and "0 < n" and "0 < d" and "d \<le> nx + nb"
  shows "\<exists>mus Sigs. conditional_moments lb self (butlast x) None = Some (mus, Sigs) \<and>
           log_likelihood lb self x =
             Some (tab n T (\<lambda>i t. mvn_log_prob lb (take d (mus ! t ! i)) (block_upto d (Sigs ! t))
                                      (x ! (t + 1) ! i)))"
proof -
  have lx: "length x = T + 1" and xm: "list_all (is_mat n d) x"
    using assms(4) by (simp_all add: is_arr3_def)
  have bl: "is_arr3 T n d (butlast x)"
    using lx xm by (auto simp: is_arr3_def list_all_iff dest: in_set_butlastD)
  obtain mus Sigs where cm: "conditional_moments lb self (butlast x) None = Some (mus, Sigs)"
    and mus: "is_arr3 T n (nx + nb) mus" and Sigs: "is_arr3 T (nx + nb) (nx + nb) Sigs"
    using conditional_moments_ok [OF assms(1-3) bl assms(5-8), of None] by auto
  have lS: "length Sigs = T" using Sigs by (simp add: is_arr3_def)
  obtain mv where mv: "conditional_distribution lb self (butlast x) = Some mv"
    and ll: "length (loc mv) = n" and lc: "length (covariance_matrix mv) = T"
    and locs: "\<And>i. i < n \<Longrightarrow> length (loc mv ! i) = T"
    and loc: "\<And>i t. i < n \<Longrightarrow> t < T \<Longrightarrow> loc mv ! i ! t = take d (mus ! t ! i)"
    and cov: "\<And>t. t < T \<Longrightarrow> covariance_matrix mv ! t = block_upto d (Sigs ! t)"
    using conditional_distribution_eq [OF cm mus lS bl assms(5,6)] by blast
  have tl: "length (tl x) = T" using lx by simp
  have ne: "tl x \<noteq> []" using lx assms(5) by (cases x) auto
  have tlm: "\<And>t. t < T \<Longrightarrow> length (tl x ! t) = n"
    using xm lx by (auto simp: nth_tl list_all_length is_mat_def)
  have hd: "length (hd (tl x)) = n" using tlm [of 0] assms(5) ne by (simp add: hd_conv_nth)
  have lv: "length (mtransp (tl x)) = n" using mtransp_length [OF ne] hd by simp
  have v: "mtransp (tl x) ! i = map (\<lambda>M. M ! i) (tl x)" if "i < n" for i
    using mtransp_nth [OF ne, of i] hd that by simp
  have vt: "mtransp (tl x) ! i ! t = x ! (t + 1) ! i" if "i < n" "t < T" for i t
    using v [OF that(1)] that(2) tl by (simp add: nth_tl)
  have vlen: "length (mtransp (tl x) ! i) = T" if "i < n" for i
    using v [OF that] tl by simp
  have "log_prob lb mv (mtransp (tl x)) =
      Some (tab n T (\<lambda>i t. mvn_log_prob lb (take d (mus ! t ! i)) (block_upto d (Sigs ! t))
                               (x ! (t + 1) ! i)))"
    unfolding log_prob_def tab_def
    by (simp add: lv ll lc list_all_iff vlen locs loc cov vt cong: map_cong)
  then show ?thesis using cm mv by (simp add: log_likelihood_def)
qed

theorem log_likelihood_per_step_witness:
  "\<exists>mus Sigs. conditional_moments demo_lib demo_system (butlast demo_trajectory) None = Some (mus, Sigs) \<and>
     log_likelihood demo_lib demo_system demo_trajectory =
       Some (tab 2 2 (\<lambda>i t. mvn_log_prob demo_lib (take 1 (mus ! t ! i)) (block_upto 1 (Sigs ! t))
                                (demo_trajectory ! (t + 1) ! i)))"
  using log_likelihood_per_step [OF demo_gains(3) demo_gains(4) demo_filter_shapes(2),
      where n = 2 and d = 1 and x = demo_trajectory]
    demo_trajectory_shape
  by simp

text \<open>C2 as stated fails: for three steps and two trials the value has two entries for each
  trial, not their sum.\<close>

theorem log_likelihood_counterexample:
  "log_likelihood demo_lib demo_system demo_trajectory
     = Some [[- (5 / 8), - (845 / 808)], [- (8 / 5), - (1849 / 1010)]] \<and>
   map_option (\<lambda>r. (nrows r, ncols r)) (log_likelihood demo_lib demo_system demo_trajectory)
     = Some (2, 2) \<and>
   log_likelihood demo_lib demo_system demo_trajectory
     \<noteq> map_option (map (\<lambda>row. [sum_list row])) (log_likelihood demo_lib demo_system demo_trajectory)"
proof -
  have v: "log_likelihood demo_lib demo_system demo_trajectory
     = Some [[- (5 / 8), - (845 / 808)], [- (8 / 5), - (1849 / 1010)]]"
    by code_simp
  show ?thesis unfolding v by (simp add: nrows_def ncols_def)
qed

section \<open>Entries\<close>

lemma mmul_nth:
  assumes "is_mat r k M" "is_mat k c N" "0 < k" "i < r" "j < c"
  shows "mmul M N ! i ! j = (\<Sum>l<k. M ! i ! l * N ! l ! j)"
  using assms by (simp add: mmul_tab)

lemma mtransp_entry:
  assumes "is_mat r c M" "0 < r" "i < c" "j < r"
  shows "mtransp M ! i ! j = M ! j ! i"
  using assms by (simp add: mtransp_tab)

lemma padd_nth:
  assumes "is_mat r c M" "0 < r" "i < r" "j < c"
  shows "padd M N ! i ! j = M ! i ! j + N ! i ! j"
  using assms by (simp add: padd_def is_mat_nrows is_mat_ncols)

lemma psub_nth:
  assumes "is_mat r c M" "0 < r" "i < r" "j < c"
  shows "psub M N ! i ! j = M ! i ! j - N ! i ! j"
  using assms by (simp add: psub_def is_mat_nrows is_mat_ncols)

lemma cols_upto_nth:
  assumes "is_mat r c M" "i < r" "j < d"
  shows "cols_upto d M ! i ! j = M ! i ! j"
  using assms by (simp add: cols_upto_def is_mat_length)

lemma rows_upto_nth: "i < d \<Longrightarrow> rows_upto d M ! i = M ! i"
  by (simp add: rows_upto_def)

section \<open>Algebra of the array product\<close>

lemma mmul_assoc:
  fixes M :: "('a::comm_ring_1) array2"
  assumes M: "is_mat r k M" and N: "is_mat k l N" and P: "is_mat l c P"
    and pos: "0 < r" "0 < k" "0 < l"
  shows "mmul (mmul M N) P = mmul M (mmul N P)"
proof (rule mat_eqI [where r = r and c = c])
  note MN = matmul_ok(2) [OF M N pos(1) pos(2)]
  note NP = matmul_ok(2) [OF N P pos(2) pos(3)]
  show "is_mat r c (mmul (mmul M N) P)" by (rule matmul_ok(2) [OF MN P pos(1) pos(3)])
  show "is_mat r c (mmul M (mmul N P))" by (rule matmul_ok(2) [OF M NP pos(1) pos(2)])
  fix i j assume i: "i < r" and j: "j < c"
  have "mmul (mmul M N) P ! i ! j = (\<Sum>b<l. (\<Sum>a<k. M ! i ! a * N ! a ! b) * P ! b ! j)"
    by (simp add: mmul_nth [OF MN P pos(3) i j] mmul_nth [OF M N pos(2) i])
  also have "\<dots> = (\<Sum>b<l. \<Sum>a<k. M ! i ! a * (N ! a ! b * P ! b ! j))"
    by (simp add: sum_distrib_right mult.assoc)
  also have "\<dots> = (\<Sum>a<k. \<Sum>b<l. M ! i ! a * (N ! a ! b * P ! b ! j))"
    by (rule sum.swap)
  also have "\<dots> = (\<Sum>a<k. M ! i ! a * (\<Sum>b<l. N ! a ! b * P ! b ! j))"
    by (simp add: sum_distrib_left)
  also have "\<dots> = mmul M (mmul N P) ! i ! j"
    by (simp add: mmul_nth [OF M NP pos(2) i j] mmul_nth [OF N P pos(3) _ j])
  finally show "mmul (mmul M N) P ! i ! j = mmul M (mmul N P) ! i ! j" .
qed

lemma mmul_padd_left:
  fixes M :: "('a::comm_ring_1) array2"
  assumes M: "is_mat r k M" and N: "is_mat r k N" and P: "is_mat k c P"
    and pos: "0 < r" "0 < k"
  shows "mmul (padd M N) P = padd (mmul M P) (mmul N P)"
proof (rule mat_eqI [where r = r and c = c])
  note MN = is_mat_padd [OF M pos(1), of N]
  note MP = matmul_ok(2) [OF M P pos]
  note NP = matmul_ok(2) [OF N P pos]
  show "is_mat r c (mmul (padd M N) P)" by (rule matmul_ok(2) [OF MN P pos])
  show "is_mat r c (padd (mmul M P) (mmul N P))" by (rule is_mat_padd [OF MP pos(1)])
  fix i j assume i: "i < r" and j: "j < c"
  show "mmul (padd M N) P ! i ! j = padd (mmul M P) (mmul N P) ! i ! j"
    by (simp add: mmul_nth [OF MN P pos(2) i j] padd_nth [OF M pos(1) i]
        padd_nth [OF MP pos(1) i j] mmul_nth [OF M P pos(2) i j] mmul_nth [OF N P pos(2) i j]
        distrib_right sum.distrib)
qed

lemma mmul_psub_left:
  fixes M :: "('a::comm_ring_1) array2"
  assumes M: "is_mat r k M" and N: "is_mat r k N" and P: "is_mat k c P"
    and pos: "0 < r" "0 < k"
  shows "mmul (psub M N) P = psub (mmul M P) (mmul N P)"
proof (rule mat_eqI [where r = r and c = c])
  note MN = is_mat_psub [OF M pos(1), of N]
  note MP = matmul_ok(2) [OF M P pos]
  note NP = matmul_ok(2) [OF N P pos]
  show "is_mat r c (mmul (psub M N) P)" by (rule matmul_ok(2) [OF MN P pos])
  show "is_mat r c (psub (mmul M P) (mmul N P))" by (rule is_mat_psub [OF MP pos(1)])
  fix i j assume i: "i < r" and j: "j < c"
  show "mmul (psub M N) P ! i ! j = psub (mmul M P) (mmul N P) ! i ! j"
    by (simp add: mmul_nth [OF MN P pos(2) i j] psub_nth [OF M pos(1) i]
        psub_nth [OF MP pos(1) i j] mmul_nth [OF M P pos(2) i j] mmul_nth [OF N P pos(2) i j]
        left_diff_distrib sum_subtractf)
qed

lemma mmul_psub_right:
  fixes M :: "('a::comm_ring_1) array2"
  assumes M: "is_mat r k M" and N: "is_mat k c N" and P: "is_mat k c P"
    and pos: "0 < r" "0 < k"
  shows "mmul M (psub N P) = psub (mmul M N) (mmul M P)"
proof (rule mat_eqI [where r = r and c = c])
  note NP = is_mat_psub [OF N pos(2), of P]
  note MN = matmul_ok(2) [OF M N pos]
  note MP = matmul_ok(2) [OF M P pos]
  show "is_mat r c (mmul M (psub N P))" by (rule matmul_ok(2) [OF M NP pos])
  show "is_mat r c (psub (mmul M N) (mmul M P))" by (rule is_mat_psub [OF MN pos(1)])
  fix i j assume i: "i < r" and j: "j < c"
  show "mmul M (psub N P) ! i ! j = psub (mmul M N) (mmul M P) ! i ! j"
    by (simp add: mmul_nth [OF M NP pos(2) i j] psub_nth [OF N pos(2) _ j]
        psub_nth [OF MN pos(1) i j] mmul_nth [OF M N pos(2) i j] mmul_nth [OF M P pos(2) i j]
        right_diff_distrib sum_subtractf)
qed

lemma cols_upto_mmul:
  fixes M :: "('a::comm_ring_1) array2"
  assumes M: "is_mat r k M" and N: "is_mat k c N" and pos: "0 < r" "0 < k" and d: "d \<le> c"
  shows "cols_upto d (mmul M N) = mmul M (cols_upto d N)"
proof (rule mat_eqI [where r = r and c = d])
  note MN = matmul_ok(2) [OF M N pos]
  have Nd: "is_mat k d (cols_upto d N)" using is_mat_cols_upto [OF N, of d] d by (simp add: min_absorb1)
  show "is_mat r d (cols_upto d (mmul M N))"
    using is_mat_cols_upto [OF MN, of d] d by (simp add: min_absorb1)
  show "is_mat r d (mmul M (cols_upto d N))" by (rule matmul_ok(2) [OF M Nd pos])
  fix i j assume i: "i < r" and j: "j < d"
  then have jc: "j < c" using d by simp
  show "cols_upto d (mmul M N) ! i ! j = mmul M (cols_upto d N) ! i ! j"
    by (simp add: cols_upto_nth [OF MN i j] mmul_nth [OF M N pos(2) i jc]
        mmul_nth [OF M Nd pos(2) i j] cols_upto_nth [OF N _ j])
qed

lemma rows_upto_mmul:
  fixes M :: "('a::comm_ring_1) array2"
  assumes M: "is_mat r k M" and N: "is_mat k c N" and pos: "0 < d" "0 < k" and d: "d \<le> r"
  shows "rows_upto d (mmul M N) = mmul (rows_upto d M) N"
proof (rule mat_eqI [where r = d and c = c])
  have r: "0 < r" using pos d by simp
  note MN = matmul_ok(2) [OF M N r pos(2)]
  have Md: "is_mat d k (rows_upto d M)" using is_mat_rows_upto [OF M, of d] d by (simp add: min_absorb1)
  show "is_mat d c (rows_upto d (mmul M N))"
    using is_mat_rows_upto [OF MN, of d] d by (simp add: min_absorb1)
  show "is_mat d c (mmul (rows_upto d M) N)" by (rule matmul_ok(2) [OF Md N pos])
  fix i j assume i: "i < d" and j: "j < c"
  then have ir: "i < r" using d by simp
  show "rows_upto d (mmul M N) ! i ! j = mmul (rows_upto d M) N ! i ! j"
    by (simp add: rows_upto_nth [OF i] mmul_nth [OF M N pos(2) ir j]
        mmul_nth [OF Md N pos(2) i j])
qed

lemma mtransp_mmul:
  fixes M :: "('a::comm_ring_1) array2"
  assumes M: "is_mat r k M" and N: "is_mat k c N" and pos: "0 < r" "0 < k" "0 < c"
  shows "mtransp (mmul M N) = mmul (mtransp N) (mtransp M)"
proof (rule mat_eqI [where r = c and c = r])
  note MN = matmul_ok(2) [OF M N pos(1) pos(2)]
  note Mt = is_mat_mtransp [OF M pos(1)]
  note Nt = is_mat_mtransp [OF N pos(2)]
  show "is_mat c r (mtransp (mmul M N))" by (rule is_mat_mtransp [OF MN pos(1)])
  show "is_mat c r (mmul (mtransp N) (mtransp M))" by (rule matmul_ok(2) [OF Nt Mt pos(3) pos(2)])
  fix i j assume i: "i < c" and j: "j < r"
  show "mtransp (mmul M N) ! i ! j = mmul (mtransp N) (mtransp M) ! i ! j"
    by (simp add: mtransp_entry [OF MN pos(1) i j] mmul_nth [OF M N pos(2) j i]
        mmul_nth [OF Nt Mt pos(2) i j] mtransp_entry [OF N pos(2) i]
        mtransp_entry [OF M pos(1) _ j] mult.commute)
qed

lemma padd_psub_swap:
  fixes X :: "('a::comm_ring_1) array2"
  assumes X: "is_mat r c X" and Y: "is_mat r c Y" and Z: "is_mat r c Z" and pos: "0 < r"
  shows "padd (psub X Y) Z = psub (padd X Z) Y"
proof (rule mat_eqI [where r = r and c = c])
  note XY = is_mat_psub [OF X pos, of Y]
  note XZ = is_mat_padd [OF X pos, of Z]
  show "is_mat r c (padd (psub X Y) Z)" by (rule is_mat_padd [OF XY pos])
  show "is_mat r c (psub (padd X Z) Y)" by (rule is_mat_psub [OF XZ pos])
  fix i j assume i: "i < r" and j: "j < c"
  show "padd (psub X Y) Z ! i ! j = psub (padd X Z) Y ! i ! j"
    by (simp add: padd_nth [OF XY pos i j] psub_nth [OF X pos i j] psub_nth [OF XZ pos i j]
        padd_nth [OF X pos i j])
qed


section \<open>The filtering step conditions, then predicts\<close>

lemma condition_on_eq:
  fixes lb :: "('a::comm_ring_1, 'k) lib"
  assumes mu: "is_mat n m mu" and S: "is_mat m m Sig" and xt: "is_mat n d xt"
    and d: "0 < d" "d \<le> m" and n: "0 < n"
  defines "iv \<equiv> inv_of lb (block_upto d Sig)"
  defines "mu_c \<equiv> padd mu (mmul (mmul (psub xt (cols_upto d mu)) (mtransp iv))
                              (mtransp (cols_upto d Sig)))"
  defines "Sig_c \<equiv> psub Sig (mmul (mmul (cols_upto d Sig) iv) (rows_upto d Sig))"
  shows "condition_on lb d (mu, Sig) xt = Some (mu_c, Sig_c)"
    and "is_mat n m mu_c" and "is_mat m m Sig_c"
proof -
  have m: "0 < m" using d by simp
  have md: "min d m = d" using d by simp
  have mud: "is_mat n d (cols_upto d mu)" using is_mat_cols_upto [OF mu, of d] md by simp
  note innov = msub_psub [OF xt mud n]
  have innov_m: "is_mat n d (psub xt (cols_upto d mu))" by (rule is_mat_psub [OF xt n])
  have blk: "is_mat d d (block_upto d Sig)" using is_mat_block_upto [OF S, of d] md by simp
  note iv = inv_inv_of [OF blk d(1), of lb, folded iv_def]
  note ivt = is_mat_mtransp [OF iv(2) d(1)]
  note scaled = matmul_ok [OF innov_m ivt n d(1)]
  have Sd: "is_mat m d (cols_upto d Sig)" using is_mat_cols_upto [OF S, of d] md by simp
  note Sdt = is_mat_mtransp [OF Sd m]
  note corr = matmul_ok [OF scaled(2) Sdt n d(1)]
  note mu' = madd_padd [OF mu corr(2) n, folded mu_c_def]
  note gain = matmul_ok [OF Sd iv(2) m d(1)]
  have Sr: "is_mat d m (rows_upto d Sig)" using is_mat_rows_upto [OF S, of d] md by simp
  note schur = matmul_ok [OF gain(2) Sr m d(1)]
  note Sig' = msub_psub [OF S schur(2) m, folded Sig_c_def]
  show "condition_on lb d (mu, Sig) xt = Some (mu_c, Sig_c)"
    by (simp add: condition_on_def innov iv(1) scaled(1) corr(1) mu' gain(1) schur(1) Sig')
  show "is_mat n m mu_c" unfolding mu_c_def by (rule is_mat_padd [OF mu n])
  show "is_mat m m Sig_c" unfolding Sig_c_def by (rule is_mat_psub [OF S m])
qed

lemma predict_eq:
  fixes Fm :: "('a::comm_ring_1) array2"
  assumes F: "is_mat m m Fm" and G: "is_mat m p Gm" and mu: "is_mat n m mu"
    and S: "is_mat m m Sig" and m: "0 < m" and n: "0 < n" and p: "0 < p"
  shows "predict Fm Gm (mu, Sig) =
           Some (mmul mu (mtransp Fm),
                 padd (mmul (mmul Fm Sig) (mtransp Fm)) (mmul Gm (mtransp Gm)))"
proof -
  note Ft = is_mat_mtransp [OF F m]
  note Gt = is_mat_mtransp [OF G m]
  note mu_p = matmul_ok [OF mu Ft n m]
  note fs = matmul_ok [OF F S m m]
  note fsft = matmul_ok [OF fs(2) Ft m m]
  note ggt = matmul_ok [OF G Gt m p]
  note Sig_p = madd_padd [OF fsft(2) ggt(2) m]
  show ?thesis by (simp add: predict_def mu_p(1) fs(1) fsft(1) ggt(1) Sig_p)
qed

text \<open>
  C1 (as amended). For moments, matrices and an observation of consistent shapes, a step of
  the recursion in \<open>conditional_moments\<close> first conditions the moments it receives on the
  observation \<open>x_t\<close> (innovation \<open>x_t - mu[:, :d]\<close>, scaled by the inverse of \<open>Sigma[:d, :d]\<close>,
  mean and covariance corrected by the Schur complement) and then predicts from the
  conditioned moments (\<open>mu_c F\<^sup>T\<close> and \<open>F Sigma_c F\<^sup>T + G G\<^sup>T\<close>). The inverted block and the
  reference mean of the innovation are those of the moments the step receives, which are
  the prediction the previous step made; what the step emits is the next prediction, and the
  step does not fail.
\<close>

theorem f_step_conditions_then_predicts:
  fixes lb :: "('a::comm_ring_1, 'k) lib"
  assumes F: "is_mat m m Fm" and G: "is_mat m p Gm" and mu: "is_mat n m mu"
    and S: "is_mat m m Sig" and xt: "is_mat n d xt"
    and d: "0 < d" "d \<le> m" and n: "0 < n" and p: "0 < p"
  shows "f_step lb Fm Gm d (mu, Sig) xt =
           do { c \<leftarrow> condition_on lb d (mu, Sig) xt;
                q \<leftarrow> predict Fm Gm c;
                Some (q, q) } \<and>
         f_step lb Fm Gm d (mu, Sig) xt \<noteq> None"
proof -
  define iv where "iv = inv_of lb (block_upto d Sig)"
  define E where "E = mmul (psub xt (cols_upto d mu)) (mtransp iv)"
  define Sd where "Sd = cols_upto d Sig"
  define Sr where "Sr = rows_upto d Sig"
  define Ft where "Ft = mtransp Fm"
  define GG where "GG = mmul Gm (mtransp Gm)"
  define fs where "fs = mmul Fm Sig"
  have m: "0 < m" using d by simp
  have md: "min d m = d" using d by simp
  note fstep = f_step_eq [OF F G mu S xt d n p, of lb,
      folded iv_def E_def Sd_def Sr_def Ft_def GG_def fs_def]
  note cond = condition_on_eq [OF mu S xt d n, of lb, folded iv_def E_def Sd_def Sr_def]
  note pred = predict_eq [OF F G cond(2) cond(3) m n p, folded Ft_def GG_def]
  \<comment> \<open>shapes\<close>
  have Ftm: "is_mat m m Ft" unfolding Ft_def by (rule is_mat_mtransp [OF F m])
  have mud: "is_mat n d (cols_upto d mu)" using is_mat_cols_upto [OF mu, of d] md by simp
  have blk: "is_mat d d (block_upto d Sig)" using is_mat_block_upto [OF S, of d] md by simp
  have ivm: "is_mat d d iv" unfolding iv_def by (rule inv_inv_of(2) [OF blk d(1)])
  have Em: "is_mat n d E"
    unfolding E_def
    by (rule matmul_ok(2) [OF is_mat_psub [OF xt n] is_mat_mtransp [OF ivm d(1)] n d(1)])
  have Sdm: "is_mat m d Sd" unfolding Sd_def using is_mat_cols_upto [OF S, of d] md by simp
  have Sdt: "is_mat d m (mtransp Sd)" by (rule is_mat_mtransp [OF Sdm m])
  have Srm: "is_mat d m Sr" unfolding Sr_def using is_mat_rows_upto [OF S, of d] md by simp
  have fsm: "is_mat m m fs" unfolding fs_def by (rule matmul_ok(2) [OF F S m m])
  have ESdt: "is_mat n m (mmul E (mtransp Sd))" by (rule matmul_ok(2) [OF Em Sdt n d(1)])
  have Sdiv: "is_mat m d (mmul Sd iv)" by (rule matmul_ok(2) [OF Sdm ivm m d(1)])
  have X: "is_mat m m (mmul (mmul Sd iv) Sr)" by (rule matmul_ok(2) [OF Sdiv Srm m d(1)])
  have FX: "is_mat m m (mmul Fm (mmul (mmul Sd iv) Sr))" by (rule matmul_ok(2) [OF F X m m])
  have FSd: "is_mat m d (mmul Fm Sd)" by (rule matmul_ok(2) [OF F Sdm m m])
  have FSdiv: "is_mat m d (mmul (mmul Fm Sd) iv)" by (rule matmul_ok(2) [OF FSd ivm m d(1)])
  have fsFt: "is_mat m m (mmul fs Ft)" by (rule matmul_ok(2) [OF fsm Ftm m m])
  have GGm: "is_mat m m GG"
    unfolding GG_def by (rule matmul_ok(2) [OF G is_mat_mtransp [OF G m] m p])
  \<comment> \<open>slices commute with products\<close>
  have cols_fs: "cols_upto d fs = mmul Fm Sd"
    unfolding fs_def Sd_def by (rule cols_upto_mmul [OF F S m m d(2)])
  have rows_SFt: "rows_upto d (mmul Sig Ft) = mmul Sr Ft"
    unfolding Sr_def by (rule rows_upto_mmul [OF S Ftm d(1) m d(2)])
  have tr: "mtransp (mmul Fm Sd) = mmul (mtransp Sd) Ft"
    unfolding Ft_def by (rule mtransp_mmul [OF F Sdm m m d(1)])
  \<comment> \<open>the mean\<close>
  have "mmul (padd mu (mmul E (mtransp Sd))) Ft = padd (mmul mu Ft) (mmul (mmul E (mtransp Sd)) Ft)"
    by (rule mmul_padd_left [OF mu ESdt Ftm n m])
  also have "mmul (mmul E (mtransp Sd)) Ft = mmul E (mmul (mtransp Sd) Ft)"
    by (rule mmul_assoc [OF Em Sdt Ftm n d(1) m])
  finally have mean: "mmul (padd mu (mmul E (mtransp Sd))) Ft
      = padd (mmul mu Ft) (mmul E (mtransp (cols_upto d fs)))"
    by (simp add: cols_fs tr)
  \<comment> \<open>the covariance\<close>
  have "mmul Fm (mmul (mmul Sd iv) Sr) = mmul (mmul Fm (mmul Sd iv)) Sr"
    by (rule mmul_assoc [OF F Sdiv Srm m m d(1), symmetric])
  also have "mmul Fm (mmul Sd iv) = mmul (mmul Fm Sd) iv"
    by (rule mmul_assoc [OF F Sdm ivm m m d(1), symmetric])
  finally have FXeq: "mmul Fm (mmul (mmul Sd iv) Sr) = mmul (mmul (mmul Fm Sd) iv) Sr" .
  have FXF: "mmul (mmul Fm (mmul (mmul Sd iv) Sr)) Ft = mmul (mmul (mmul Fm Sd) iv) (mmul Sr Ft)"
    unfolding FXeq by (rule mmul_assoc [OF FSdiv Srm Ftm m d(1) m])
  have "mmul (mmul Fm (psub Sig (mmul (mmul Sd iv) Sr))) Ft
      = mmul (psub fs (mmul Fm (mmul (mmul Sd iv) Sr))) Ft"
    unfolding fs_def by (simp add: mmul_psub_right [OF F S X m m])
  also have "\<dots> = psub (mmul fs Ft) (mmul (mmul Fm (mmul (mmul Sd iv) Sr)) Ft)"
    by (rule mmul_psub_left [OF fsm FX Ftm m m])
  finally have "padd (mmul (mmul Fm (psub Sig (mmul (mmul Sd iv) Sr))) Ft) GG
      = padd (psub (mmul fs Ft) (mmul (mmul (mmul Fm Sd) iv) (mmul Sr Ft))) GG"
    by (simp add: FXF)
  also have "\<dots> = psub (padd (mmul fs Ft) GG) (mmul (mmul (mmul Fm Sd) iv) (mmul Sr Ft))"
    by (rule padd_psub_swap [OF fsFt matmul_ok(2) [OF FSdiv matmul_ok(2) [OF Srm Ftm d(1) m] m d(1)]
          GGm m])
  finally have cov: "padd (mmul (mmul Fm (psub Sig (mmul (mmul Sd iv) Sr))) Ft) GG
      = psub (padd (mmul fs Ft) GG) (mmul (mmul (cols_upto d fs) iv) (rows_upto d (mmul Sig Ft)))"
    by (simp add: cols_fs rows_SFt)
  show ?thesis
    by (simp add: fstep(1) cond(1) pred mean [unfolded E_def] cov)
qed

theorem f_step_conditions_then_predicts_witness:
  "f_step demo_lib [[1, 1], [0, 1]] [[1, 0], [0, 1]] 1 ([[0, 0]], [[1, 0], [0, 1]]) [[1]] =
     do { c \<leftarrow> condition_on demo_lib 1 ([[0, 0]], [[1, 0], [0, 1]]) [[1]];
          q \<leftarrow> predict [[1, 1], [0, 1]] [[1, 0], [0, 1]] c;
          Some (q, q) } \<and>
   f_step demo_lib [[1, 1], [0, 1]] [[1, 0], [0, 1]] 1 ([[0, 0]], [[1, 0], [0, 1]]) [[1]] \<noteq> None"
proof -
  have sq: "is_mat 2 2 [[1, 1], [0, 1 :: rat]]" "is_mat 2 2 [[1, 0], [0, 1 :: rat]]"
    and row: "is_mat 1 2 [[0, 0 :: rat]]" and obs: "is_mat 1 1 [[1 :: rat]]"
    by (simp_all add: is_mat_def)
  show ?thesis
    by (rule f_step_conditions_then_predicts [OF sq(1) sq(2) row sq(2) obs]) simp_all
qed

text \<open>C1 as stated fails: on a joint state of dimension two with one observed coordinate the
  program's step and the step that predicts first and then conditions the predicted moments
  return different means and different covariances.\<close>

theorem predicted_moments_counterexample:
  "f_step demo_lib [[1, 1], [0, 1]] [[1, 0], [0, 1]] 1 ([[0, 0]], [[1, 0], [0, 1]]) [[1]]
     = Some (([[1, 0]], [[2, 1], [1, 2]]), ([[1, 0]], [[2, 1], [1, 2]])) \<and>
   spec_f_step demo_lib [[1, 1], [0, 1]] [[1, 0], [0, 1]] 1 ([[0, 0]], [[1, 0], [0, 1]]) [[1]]
     = Some (([[1, 1 / 3]], [[0, 0], [0, 5 / 3]]), ([[1, 1 / 3]], [[0, 0], [0, 5 / 3]])) \<and>
   f_step demo_lib [[1, 1], [0, 1]] [[1, 0], [0, 1]] 1 ([[0, 0]], [[1, 0], [0, 1]]) [[1]]
     \<noteq> spec_f_step demo_lib [[1, 1], [0, 1]] [[1, 0], [0, 1]] 1 ([[0, 0]], [[1, 0], [0, 1]]) [[1]]"
proof -
  have c: "f_step demo_lib [[1, 1], [0, 1]] [[1, 0], [0, 1]] 1 ([[0, 0]], [[1, 0], [0, 1]]) [[1]]
     = Some (([[1, 0]], [[2, 1], [1, 2]]), ([[1, 0]], [[2, 1], [1, 2]]))"
    by code_simp
  have s: "spec_f_step demo_lib [[1, 1], [0, 1]] [[1, 0], [0, 1]] 1 ([[0, 0]], [[1, 0], [0, 1]]) [[1]]
     = Some (([[1, 1 / 3]], [[0, 0], [0, 5 / 3]]), ([[1, 1 / 3]], [[0, 0], [0, 5 / 3]]))"
    by code_simp
  show ?thesis unfolding c s by simp
qed

section \<open>Construction\<close>

text \<open>
  C9 (as amended). Constructing a system never fails and validates nothing: for all plant
  and controller tuples, \<open>System.__init__\<close> returns a system holding exactly the two tuples,
  and \<open>LQG.__init__\<close> returns the system whose plant and controller share the given matrices.
  The dimensions are read off the stored matrices: the state dimension is the row count of
  the plant's \<open>A\<close>, the belief dimension the row count of the controller's \<open>A\<close>, the action
  dimension the column count of the plant's \<open>B\<close>.
\<close>

theorem construction_total:
  "(\<exists>sys. System_init act dyn = Some sys \<and> actor sys = act \<and> dynamics sys = dyn \<and>
      xdim sys = nrows (A dyn) \<and> bdim sys = nrows (A act) \<and> udim sys = ncols (B dyn)) \<and>
   (\<exists>sys. LQG_init a b c v w q r = Some sys \<and>
      dynamics sys = \<lparr>A = a, B = b, C = c, V = v, W = w\<rparr> \<and>
      actor sys = \<lparr>A = a, B = b, C = c, V = v, W = w, Q = q, R = r\<rparr>)"
  by (simp add: System_init_def LQG_init_def xdim_def bdim_def udim_def)

text \<open>
  C9 as stated fails: with a plant whose \<open>B\<close> has two rows and whose \<open>A\<close> has one, construction
  succeeds. The inconsistency shows only when an operation runs: \<open>simulate\<close> on that system
  raises.
\<close>

theorem construction_counterexample:
  "nrows (B mismatched_dynamics) \<noteq> nrows (A mismatched_dynamics) \<and>
   System_init demo_actor mismatched_dynamics = Some mismatched_system \<and>
   simulate demo_lib mismatched_system 0 2 3 None False = None"
  by code_simp

end
